theory Spec2Isabelle
  imports Complex_Main "HOL-Library.Monad_Syntax"
begin

section \<open>CHAVI water allocation model: embedding of \<open>build_and_solve\<close>\<close>

text \<open>
  The development follows \<^verbatim>\<open>chavi_pulp_model.py\<close>. Python floats are read as real
  numbers, so every equation below is an identity of exact arithmetic.
  Names of sources, demands and months are strings, dictionaries are association
  lists in insertion order and a subscript \<^verbatim>\<open>d[k]\<close> is a lookup that can fail
  (\<open>None\<close> stands for the \<^verbatim>\<open>KeyError\<close> or \<^verbatim>\<open>IndexError\<close> Python raises).
\<close>

subsection \<open>Python subscripts\<close>

definition getitem :: "('k \<times> 'v) list \<Rightarrow> 'k \<Rightarrow> 'v option" where
  "getitem d k = map_of d k"

definition index :: "'a list \<Rightarrow> nat \<Rightarrow> 'a option" where
  "index xs n = (if n < length xs then Some (xs ! n) else None)"

subsection \<open>Base data (lines 49 to 121)\<close>

definition months :: "string list" where
  "months = [''Ene'', ''Feb'', ''Mar'', ''Abr'', ''May'', ''Jun'',
             ''Jul'', ''Ago'', ''Sep'', ''Oct'', ''Nov'', ''Dic'']"

definition days :: "int list" where
  "days = [31, 28, 31, 30, 31, 30, 31, 31, 30, 31, 30, 31]"

definition secs :: "(string \<times> int) list" where
  "secs = map (\<lambda>(m, d). (m, d * 24 * 3600)) (zip months days)"

text \<open>The second source name is \<^verbatim>\<open>Huamanzana\<close> written with n-tilde (code point 241).\<close>

definition Huamanzana :: string where
  "Huamanzana = ''Huamanza'' @ [CHR 0xF1] @ ''a''"

definition sources :: "string list" where
  "sources = [''Santa'', Huamanzana, ''Chorobal'', ''Viru_Rio'',
              ''Dren_Chao'', ''Dren_Viru'', ''Pozos_Chao'', ''Pozos_Viru'']"

definition demands :: "string list" where
  "demands = [''Chao'', ''Viru'', ''S1'', ''S2'', ''S3'', ''S4'',
              ''PTAP_Trujillo'', ''PTAP_Chao'', ''Industria'', ''Pecuario'']"

definition offer_m3s :: "(string \<times> real list) list" where
  "offer_m3s =
    [(''Santa'', [17.59, 18.41, 17.29, 16.54, 16.36, 14.90, 11.72, 11.90, 11.55, 14.72, 18.06, 19.02]),
     (Huamanzana, replicate 12 0.00),
     (''Chorobal'', [0.00, 0.00, 0.00, 0.01, 0.00, 0.00, 0.00, 0.00, 0.00, 0.00, 0.00, 0.00]),
     (''Viru_Rio'', [0.21, 1.15, 2.01, 1.89, 0.57, 0.07, 0.03, 0.00, 0.00, 0.00, 0.00, 0.00]),
     (''Dren_Chao'', [0.53, 0.66, 0.50, 0.51, 0.52, 0.49, 0.49, 0.67, 0.94, 1.04, 1.04, 0.83]),
     (''Dren_Viru'', [0.61, 0.70, 0.63, 0.69, 0.62, 0.62, 0.57, 0.59, 0.59, 0.53, 0.65, 0.65]),
     (''Pozos_Chao'', [0.00, 0.00, 0.00, 0.00, 0.00, 0.00, 0.19, 0.22, 0.27, 0.24, 0.00, 0.00]),
     (''Pozos_Viru'', [0.00, 0.00, 0.00, 0.00, 0.00, 0.15, 0.19, 0.22, 0.25, 0.23, 0.25, 0.19])]"

definition demand_m3s :: "(string \<times> real list) list" where
  "demand_m3s =
    [(''Chao'', [1.98, 1.82, 1.92, 1.88, 1.85, 1.79, 1.74, 2.72, 3.77, 4.16, 3.80, 3.14]),
     (''Viru'', [2.35, 2.76, 2.78, 2.99, 3.18, 3.15, 2.78, 2.93, 2.66, 2.77, 2.64, 3.22]),
     (''S1'', [4.60, 4.73, 4.49, 4.45, 3.98, 3.70, 2.88, 2.89, 2.99, 3.45, 4.31, 4.47]),
     (''S2'', [0.92, 0.94, 0.90, 0.89, 0.79, 0.74, 0.57, 0.58, 0.60, 0.69, 0.86, 0.89]),
     (''S3'', [2.83, 2.91, 2.77, 2.74, 2.45, 2.27, 1.77, 1.78, 1.84, 2.12, 2.65, 2.75]),
     (''S4'', [3.18, 3.27, 3.11, 3.08, 2.75, 2.56, 1.99, 2.00, 2.07, 2.39, 2.98, 3.09]),
     (''PTAP_Trujillo'', [1.22, 1.14, 1.21, 1.11, 1.17, 1.18, 1.00, 1.11, 1.20, 1.23, 1.19, 1.21]),
     (''PTAP_Chao'', [0.04, 0.04, 0.03, 0.04, 0.04, 0.04, 0.04, 0.03, 0.04, 0.04, 0.04, 0.04]),
     (''Industria'', replicate 12 0.50),
     (''Pecuario'', replicate 12 0.60)]"

definition cost_offer_USD_m3 :: "(string \<times> real) list" where
  "cost_offer_USD_m3 =
    [(''Santa'', 0.024820), (Huamanzana, 0.0017953), (''Chorobal'', 0.0017953),
     (''Viru_Rio'', 0.0018038), (''Dren_Chao'', 0.0017953), (''Dren_Viru'', 0.0018038),
     (''Pozos_Chao'', 0.0615100), (''Pozos_Viru'', 0.0615100)]"

definition value_dem_USD_m3 :: "(string \<times> real) list" where
  "value_dem_USD_m3 =
    [(''Chao'', 0.0017953), (''Viru'', 0.0018038), (''S1'', 0.024820), (''S2'', 0.024820),
     (''S3'', 0.024820), (''S4'', 0.024820), (''PTAP_Trujillo'', 0.028915),
     (''PTAP_Chao'', 0.028915), (''Industria'', 0.024820), (''Pecuario'', 0.024820)]"

definition efficiencies :: "(string \<times> (string \<times> real) list) list" where
  "efficiencies =
    [(''S1'',
       [(''Chao'', 0.30), (''Viru'', 0.30),
        (''S1'', 0.89), (''S2'', 0.89), (''S3'', 0.89), (''S4'', 0.89),
        (''PTAP_Trujillo'', 1.0), (''PTAP_Chao'', 1.0), (''Industria'', 1.0), (''Pecuario'', 1.0)]),
     (''S2'',
       [(''Chao'', 0.60), (''Viru'', 0.60),
        (''S1'', 0.95), (''S2'', 0.95), (''S3'', 0.95), (''S4'', 0.95),
        (''PTAP_Trujillo'', 1.0), (''PTAP_Chao'', 1.0), (''Industria'', 1.0), (''Pecuario'', 1.0)])]"

subsection \<open>Run parameters\<close>

text \<open>
  A Python string whose characters matter one by one (the solver name, which is lower-cased)
  is the list of its code points.
\<close>

type_synonym unicode = "nat list"

definition ustr :: "string \<Rightarrow> unicode" where
  "ustr s = map of_char s"

record params =
  scenario :: string
  mult_pozos_chao :: real
  mult_pozos_viru :: real
  penalty_usd_hm3 :: real
  weight_ptap :: real
  weight_ind_pec :: real
  weight_agro :: real
  cap_santa_m3s :: real
  solver_name :: "unicode option"
  solver_time_limit :: "int option"
  solver_msg :: bool

definition default_params :: params where
  "default_params =
    \<lparr>scenario = ''S1'', mult_pozos_chao = 1.0, mult_pozos_viru = 1.0,
     penalty_usd_hm3 = 100000000, weight_ptap = 100.0, weight_ind_pec = 50.0,
     weight_agro = 1.0, cap_santa_m3s = 88.0, solver_name = Some (ustr ''cbc''),
     solver_time_limit = None, solver_msg = False\<rparr>"

subsection \<open>Allowed arcs (lines 124 to 133)\<close>

text \<open>
  \<^verbatim>\<open>allowed_arcs\<close> is a Python set filled by three loops. The list below has the
  triples in the order the loops add them; only its set of elements is ever used.
\<close>

definition allowed_arcs :: "(string \<times> string \<times> string) list" where
  "allowed_arcs =
     [(''Santa'', j, m). j \<leftarrow> demands, m \<leftarrow> months]
     @ [(i, ''Chao'', m). i \<leftarrow> [Huamanzana, ''Chorobal'', ''Dren_Chao'', ''Pozos_Chao''], m \<leftarrow> months]
     @ [(i, ''Viru'', m). i \<leftarrow> [''Viru_Rio'', ''Dren_Viru'', ''Pozos_Viru''], m \<leftarrow> months]"

subsection \<open>Conversion to monthly volumes (lines 136 to 147)\<close>

text \<open>
  A dictionary comprehension raises as soon as one subscript inside it fails; \<open>those\<close>
  gives \<open>None\<close> in that case.
\<close>

definition Qhat :: "((string \<times> string) \<times> real) list option" where
  "Qhat = those [do { row \<leftarrow> getitem offer_m3s i; q \<leftarrow> index row mi; s \<leftarrow> getitem secs m;
                      Some ((i, m), q * real_of_int s / 1000000) }.
                 i \<leftarrow> sources, (mi, m) \<leftarrow> enumerate 0 months]"

definition Qhat_adjusted :: "params \<Rightarrow> ((string \<times> string) \<times> real) list \<Rightarrow> string \<Rightarrow> string \<Rightarrow> real option" where
  "Qhat_adjusted p Q i m = do {
     base \<leftarrow> getitem Q (i, m);
     if i = ''Pozos_Chao'' then Some (base * mult_pozos_chao p)
     else if i = ''Pozos_Viru'' then Some (base * mult_pozos_viru p)
     else Some base }"

definition Dhat :: "((string \<times> string) \<times> real) list option" where
  "Dhat = those [do { row \<leftarrow> getitem demand_m3s j; d \<leftarrow> index row mi; s \<leftarrow> getitem secs m;
                      Some ((j, m), d * real_of_int s / 1000000) }.
                 j \<leftarrow> demands, (mi, m) \<leftarrow> enumerate 0 months]"

definition CapSanta :: "params \<Rightarrow> (string \<times> real) list option" where
  "CapSanta p = those [do { s \<leftarrow> getitem secs m;
                            Some (m, cap_santa_m3s p * real_of_int s / 1000000) }.
                       m \<leftarrow> months]"

definition cost_offer_USD_hm3 :: "(string \<times> real) list option" where
  "cost_offer_USD_hm3 =
     those [do { c \<leftarrow> getitem cost_offer_USD_m3 i; Some (i, c * 1000000) }. i \<leftarrow> sources]"

definition value_dem_USD_hm3 :: "(string \<times> real) list option" where
  "value_dem_USD_hm3 =
     those [do { v \<leftarrow> getitem value_dem_USD_m3 j; Some (j, v * 1000000) }. j \<leftarrow> demands]"

subsection \<open>Sector weights (lines 149 to 156)\<close>

definition weight_dem :: "params \<Rightarrow> (string \<times> real) list" where
  "weight_dem p =
     map (\<lambda>j. (j, if j \<in> set [''PTAP_Trujillo'', ''PTAP_Chao''] then weight_ptap p
                   else if j \<in> set [''Industria'', ''Pecuario''] then weight_ind_pec p
                   else weight_agro p)) demands"

subsection \<open>The PuLP objects the program builds\<close>

text \<open>
  PuLP itself is a library outside the repository. The part of it the program relies on
  is modelled here: a variable, an affine expression (an ordered dictionary from
  variables to coefficients, plus a constant term), a constraint (an expression compared with
  a number) and a problem (a sense, an objective and named constraints in order).
  \<open>X i j m\<close> is the variable stored at \<^verbatim>\<open>x[(i,j,m)]\<close> and \<open>U j m\<close> the one at
  \<^verbatim>\<open>u[(j,m)]\<close>; every variable is created with \<^verbatim>\<open>lowBound=0\<close>.
\<close>

datatype var = X string string string | U string string

record affine =
  terms :: "(var \<times> real) list"
  aconstant :: real

datatype sense = LpConstraintLE | LpConstraintEQ | LpConstraintGE

record constraint =
  lhs :: affine
  csense :: sense
  rhs :: real

datatype objsense = LpMinimize | LpMaximize

record lpproblem =
  pname :: string
  psense :: objsense
  objective :: "affine option"
  constraints :: "(string \<times> constraint) list"

definition LpProblem :: "string \<Rightarrow> objsense \<Rightarrow> lpproblem" where
  "LpProblem n s = \<lparr>pname = n, psense = s, objective = None, constraints = []\<rparr>"

definition empty_expr :: affine where
  "empty_expr = \<lparr>terms = [], aconstant = 0\<rparr>"

definition var_expr :: "var \<Rightarrow> affine" where
  "var_expr v = \<lparr>terms = [(v, 1)], aconstant = 0\<rparr>"

text \<open>\<^verbatim>\<open>addterm\<close>: add to the coefficient of a key that is present, append a new key.\<close>

fun addterm :: "(var \<times> real) list \<Rightarrow> var \<Rightarrow> real \<Rightarrow> (var \<times> real) list" where
  "addterm [] k c = [(k, c)]"
| "addterm ((k', c') # ts) k c =
     (if k' = k then (k', c' + c) # ts else (k', c') # addterm ts k c)"

definition addInPlace :: "affine \<Rightarrow> affine \<Rightarrow> affine" where
  "addInPlace e other =
     \<lparr>terms = fold (\<lambda>(v, a) ts. addterm ts v a) (terms other) (terms e),
      aconstant = aconstant e + aconstant other\<rparr>"

definition lpSum :: "affine list \<Rightarrow> affine" where
  "lpSum es = fold (\<lambda>other e. addInPlace e other) es empty_expr"

definition scale :: "affine \<Rightarrow> real \<Rightarrow> affine" where
  "scale e c = \<lparr>terms = map (\<lambda>(v, a). (v, a * c)) (terms e), aconstant = aconstant e * c\<rparr>"

definition sub :: "affine \<Rightarrow> affine \<Rightarrow> affine" where
  "sub e other = addInPlace e (scale other (- 1))"

definition expr_eq :: "affine \<Rightarrow> real \<Rightarrow> constraint" where
  "expr_eq e r = \<lparr>lhs = e, csense = LpConstraintEQ, rhs = r\<rparr>"

definition expr_le :: "affine \<Rightarrow> real \<Rightarrow> constraint" where
  "expr_le e r = \<lparr>lhs = e, csense = LpConstraintLE, rhs = r\<rparr>"

definition add_constraint :: "lpproblem \<Rightarrow> string \<times> constraint \<Rightarrow> lpproblem" where
  "add_constraint prob nc = prob\<lparr>constraints := constraints prob @ [nc]\<rparr>"

definition set_objective :: "lpproblem \<Rightarrow> affine \<Rightarrow> lpproblem" where
  "set_objective prob e = prob\<lparr>objective := Some e\<rparr>"

subsubsection \<open>Meaning of expressions and constraints\<close>

definition eval :: "affine \<Rightarrow> (var \<Rightarrow> real) \<Rightarrow> real" where
  "eval e val = (\<Sum>(v, a) \<leftarrow> terms e. a * val v) + aconstant e"

definition sat :: "constraint \<Rightarrow> (var \<Rightarrow> real) \<Rightarrow> bool" where
  "sat c val =
     (case csense c of
        LpConstraintLE \<Rightarrow> eval (lhs c) val \<le> rhs c
      | LpConstraintEQ \<Rightarrow> eval (lhs c) val = rhs c
      | LpConstraintGE \<Rightarrow> eval (lhs c) val \<ge> rhs c)"

subsection \<open>Loops that can raise\<close>

text \<open>
  A \<^verbatim>\<open>for\<close> loop over a list whose body updates the problem. \<open>Inl s\<close> is the state
  at the moment the body raised, \<open>Inr s\<close> the state after the last iteration.
\<close>

fun for_each :: "'a list \<Rightarrow> ('a \<Rightarrow> 's \<Rightarrow> 's + 's) \<Rightarrow> 's \<Rightarrow> 's + 's" where
  "for_each [] body s = Inr s"
| "for_each (a # as) body s =
     (case body a s of Inl s' \<Rightarrow> Inl s' | Inr s' \<Rightarrow> for_each as body s')"

definition add_or_raise :: "(string \<times> constraint) option \<Rightarrow> lpproblem \<Rightarrow> lpproblem + lpproblem" where
  "add_or_raise nc prob = (case nc of None \<Rightarrow> Inl prob | Some c \<Rightarrow> Inr (add_constraint prob c))"

subsection \<open>Variables (lines 164 and 165)\<close>

definition x_keys :: "(string \<times> string \<times> string) list" where
  "x_keys = allowed_arcs"

definition u_keys :: "(string \<times> string) list" where
  "u_keys = [(j, m). j \<leftarrow> demands, m \<leftarrow> months]"

definition x_get :: "string \<times> string \<times> string \<Rightarrow> var option" where
  "x_get k = (case k of (i, j, m) \<Rightarrow> if k \<in> set x_keys then Some (X i j m) else None)"

definition u_get :: "string \<times> string \<Rightarrow> var option" where
  "u_get k = (case k of (j, m) \<Rightarrow> if k \<in> set u_keys then Some (U j m) else None)"

definition variables :: "var list" where
  "variables = map (\<lambda>(i, j, m). X i j m) x_keys @ map (\<lambda>(j, m). U j m) u_keys"

definition lowBound :: "var \<Rightarrow> real" where
  "lowBound v = 0"

subsection \<open>Constraints (lines 169 to 187)\<close>

definition balance_dem :: "((string \<times> string) \<times> real) list \<Rightarrow> real \<Rightarrow> string \<Rightarrow> string
    \<Rightarrow> (string \<times> constraint) option" where
  "balance_dem D ej j m = do {
     xs \<leftarrow> those [x_get (i, j, m). i \<leftarrow> sources, (i, j, m) \<in> set x_keys];
     uv \<leftarrow> u_get (j, m);
     d \<leftarrow> getitem D (j, m);
     Some (''Balance_Dem_'' @ j @ ''_'' @ m,
           expr_eq (addInPlace (scale (lpSum (map var_expr xs)) ej) (var_expr uv)) d) }"

definition oferta :: "params \<Rightarrow> ((string \<times> string) \<times> real) list \<Rightarrow> string \<Rightarrow> string
    \<Rightarrow> (string \<times> constraint) option" where
  "oferta p Q i m = do {
     xs \<leftarrow> those [x_get (i, j, m). j \<leftarrow> demands, (i, j, m) \<in> set x_keys];
     q \<leftarrow> Qhat_adjusted p Q i m;
     Some (''Oferta_'' @ i @ ''_'' @ m, expr_le (lpSum (map var_expr xs)) q) }"

definition cap_santa :: "(string \<times> real) list \<Rightarrow> string \<Rightarrow> (string \<times> constraint) option" where
  "cap_santa C m = do {
     xs \<leftarrow> those [x_get (''Santa'', j, m). j \<leftarrow> demands, (''Santa'', j, m) \<in> set x_keys];
     c \<leftarrow> getitem C m;
     Some (''Cap_Santa_'' @ m, expr_le (lpSum (map var_expr xs)) c) }"

definition deficit_cero :: "string \<Rightarrow> string \<Rightarrow> (string \<times> constraint) option" where
  "deficit_cero j m = do {
     uv \<leftarrow> u_get (j, m);
     Some (''DeficitCero_'' @ j @ ''_'' @ m, expr_eq (var_expr uv) 0) }"

definition priority_demands :: "string list" where
  "priority_demands = [''PTAP_Trujillo'', ''PTAP_Chao'', ''Industria'', ''Pecuario'']"

definition add_balance :: "((string \<times> string) \<times> real) list \<Rightarrow> (string \<times> real) list
    \<Rightarrow> lpproblem \<Rightarrow> lpproblem + lpproblem" where
  "add_balance D eff =
     for_each demands (\<lambda>j prob.
       case getitem eff j of
         None \<Rightarrow> Inl prob
       | Some ej \<Rightarrow> for_each months (\<lambda>m. add_or_raise (balance_dem D ej j m)) prob)"

definition add_oferta :: "params \<Rightarrow> ((string \<times> string) \<times> real) list \<Rightarrow> lpproblem \<Rightarrow> lpproblem + lpproblem" where
  "add_oferta p Q =
     for_each sources (\<lambda>i. for_each months (\<lambda>m. add_or_raise (oferta p Q i m)))"

definition add_cap_santa :: "(string \<times> real) list \<Rightarrow> lpproblem \<Rightarrow> lpproblem + lpproblem" where
  "add_cap_santa C = for_each months (\<lambda>m. add_or_raise (cap_santa C m))"

definition add_deficit_cero :: "lpproblem \<Rightarrow> lpproblem + lpproblem" where
  "add_deficit_cero =
     for_each priority_demands (\<lambda>j. for_each months (\<lambda>m. add_or_raise (deficit_cero j m)))"

subsection \<open>Objective (lines 189 to 192)\<close>

definition benefit_term :: "(string \<times> real) list \<Rightarrow> (string \<times> real) list \<Rightarrow> (string \<times> real) list
    \<Rightarrow> affine option" where
  "benefit_term eff V C =
     map_option lpSum
       (those [do { ej \<leftarrow> getitem eff j; vj \<leftarrow> getitem V j; ci \<leftarrow> getitem C i;
                    xv \<leftarrow> x_get (i, j, m);
                    Some (scale (var_expr xv) (ej * vj - ci)) }.
               (i, j, m) \<leftarrow> x_keys])"

definition penalty_term :: "params \<Rightarrow> affine option" where
  "penalty_term p =
     map_option lpSum
       (those [do { w \<leftarrow> getitem (weight_dem p) j; uv \<leftarrow> u_get (j, m);
                    Some (scale (var_expr uv) (penalty_usd_hm3 p * w)) }.
               j \<leftarrow> demands, m \<leftarrow> months])"

definition add_objective :: "params \<Rightarrow> (string \<times> real) list \<Rightarrow> (string \<times> real) list
    \<Rightarrow> (string \<times> real) list \<Rightarrow> lpproblem \<Rightarrow> lpproblem + lpproblem" where
  "add_objective p eff V C prob =
     (case benefit_term eff V C of
        None \<Rightarrow> Inl prob
      | Some b \<Rightarrow>
          (case penalty_term p of
             None \<Rightarrow> Inl prob
           | Some pen \<Rightarrow> Inr (set_objective prob (sub b pen))))"

subsection \<open>Building the model (lines 136 to 192)\<close>

record tables =
  tQhat :: "((string \<times> string) \<times> real) list"
  tDhat :: "((string \<times> string) \<times> real) list"
  tCapSanta :: "(string \<times> real) list"
  tcost :: "(string \<times> real) list"
  tvalue :: "(string \<times> real) list"

definition prepare :: "params \<Rightarrow> tables option" where
  "prepare p = do {
     Q \<leftarrow> Qhat; D \<leftarrow> Dhat; C \<leftarrow> CapSanta p;
     co \<leftarrow> cost_offer_USD_hm3; va \<leftarrow> value_dem_USD_hm3;
     Some \<lparr>tQhat = Q, tDhat = D, tCapSanta = C, tcost = co, tvalue = va\<rparr> }"

definition and_then :: "'s + 's \<Rightarrow> ('s \<Rightarrow> 's + 's) \<Rightarrow> 's + 's" where
  "and_then r f = (case r of Inl s \<Rightarrow> Inl s | Inr s \<Rightarrow> f s)"

definition fill_problem :: "params \<Rightarrow> tables \<Rightarrow> (string \<times> real) list \<Rightarrow> lpproblem \<Rightarrow> lpproblem + lpproblem" where
  "fill_problem p t eff prob =
     and_then (and_then (and_then (and_then
       (add_balance (tDhat t) eff prob)
       (add_oferta p (tQhat t)))
       (add_cap_santa (tCapSanta t)))
       add_deficit_cero)
       (add_objective p eff (tvalue t) (tcost t))"

datatype py_exception = PyException string

datatype error = KeyError | Raised py_exception

text \<open>
  What exists when the run stops: the problem object (if line 161 was reached) and the
  variable objects created so far.
\<close>

record run_state =
  st_prob :: "lpproblem option"
  st_x :: "var list"
  st_u :: "var list"

record model =
  m_tables :: tables
  m_eff :: "(string \<times> real) list"
  m_x :: "var list"
  m_u :: "var list"
  m_prob :: lpproblem

definition x_vars :: "var list" where
  "x_vars = map (\<lambda>(i, j, m). X i j m) x_keys"

definition u_vars :: "var list" where
  "u_vars = map (\<lambda>(j, m). U j m) u_keys"

definition build_model :: "params \<Rightarrow> (error \<times> run_state) + model" where
  "build_model p =
     (case prepare p of
        None \<Rightarrow> Inl (KeyError, \<lparr>st_prob = None, st_x = [], st_u = []\<rparr>)
      | Some t \<Rightarrow>
          (let prob = LpProblem ''CHAVI_Optim_Recursos_Hidricos'' LpMaximize in
           case getitem efficiencies (scenario p) of
             None \<Rightarrow> Inl (KeyError, \<lparr>st_prob = Some prob, st_x = x_vars, st_u = u_vars\<rparr>)
           | Some eff \<Rightarrow>
               (case fill_problem p t eff prob of
                  Inl prob' \<Rightarrow> Inl (KeyError, \<lparr>st_prob = Some prob', st_x = x_vars, st_u = u_vars\<rparr>)
                | Inr prob' \<Rightarrow>
                    Inr \<lparr>m_tables = t, m_eff = eff, m_x = x_vars, m_u = u_vars, m_prob = prob'\<rparr>)))"

subsection \<open>Solver selection (lines 195 to 210)\<close>

text \<open>
  The solver classes belong to PuLP and \<^verbatim>\<open>str.lower\<close> to Python. A solver object is
  identified with the constructor call that made it. What the library calls do is a
  parameter of the run: \<open>str_lower\<close> is \<^verbatim>\<open>str.lower\<close>, \<open>construct_raises\<close> tells
  whether a constructor call raises an \<^verbatim>\<open>Exception\<close>, \<open>solve\<close> is
  \<^verbatim>\<open>prob.solve\<close>, which raises or leaves a status and the values of the variables
  (\<open>None\<close> for a variable without a value).
\<close>

datatype glpk_option = Tmlim int

datatype solver = PULP_CBC_CMD bool "int option" | GLPK_CMD bool "glpk_option list option"

datatype lp_status = Not_Solved | Optimal | Infeasible | Unbounded | Undefined

record solution =
  sol_status :: lp_status
  varValue :: "var \<Rightarrow> real option"

record pulp =
  str_lower :: "unicode \<Rightarrow> unicode"
  construct_raises :: "solver \<Rightarrow> py_exception option"
  solve :: "solver option \<Rightarrow> lpproblem \<Rightarrow> py_exception + solution"

text \<open>\<^verbatim>\<open>solver_name or "cbc"\<close>: \<^verbatim>\<open>None\<close> and the empty string are falsy.\<close>

definition name_or_cbc :: "unicode option \<Rightarrow> unicode" where
  "name_or_cbc n = (case n of None \<Rightarrow> ustr ''cbc'' | Some s \<Rightarrow> if s = [] then ustr ''cbc'' else s)"

text \<open>
  The \<^verbatim>\<open>options\<close> argument of line 201: the one option \<^verbatim>\<open>--tmlim t\<close> when the
  time limit is truthy (neither \<^verbatim>\<open>None\<close> nor 0), \<^verbatim>\<open>None\<close> otherwise.
\<close>

definition glpk_options :: "params \<Rightarrow> glpk_option list option" where
  "glpk_options p =
     (case solver_time_limit p of
        None \<Rightarrow> None
      | Some t \<Rightarrow> if t = 0 then None else Some [Tmlim t])"

text \<open>The constructor call of lines 198 to 203, chosen by the lower-cased name.\<close>

definition requested_solver :: "pulp \<Rightarrow> params \<Rightarrow> solver" where
  "requested_solver env p =
     (let name = str_lower env (name_or_cbc (solver_name p)) in
      if name \<in> set [ustr ''cbc'', ustr ''pulp_cbc_cmd''] then
        PULP_CBC_CMD (solver_msg p) (solver_time_limit p)
      else if name \<in> set [ustr ''glpk'', ustr ''glpk_cmd''] then
        GLPK_CMD (solver_msg p) (glpk_options p)
      else PULP_CBC_CMD (solver_msg p) (solver_time_limit p))"

text \<open>
  The \<^verbatim>\<open>try\<close> block of lines 197 to 205: an exception of the constructor leaves
  \<^verbatim>\<open>solver = None\<close>.
\<close>

definition select_solver :: "pulp \<Rightarrow> params \<Rightarrow> solver option" where
  "select_solver env p =
     (case construct_raises env (requested_solver env p) of
        Some e \<Rightarrow> None
      | None \<Rightarrow> Some (requested_solver env p))"

subsection \<open>Extraction (lines 212 to 221)\<close>

definition or_zero :: "real option \<Rightarrow> real" where
  "or_zero v = (case v of None \<Rightarrow> 0 | Some r \<Rightarrow> if r = 0 then 0 else r)"

text \<open>\<^verbatim>\<open>pl.value\<close> of an expression: \<^verbatim>\<open>None\<close> when a variable in it has no value.\<close>

fun value_terms :: "(var \<times> real) list \<Rightarrow> (var \<Rightarrow> real option) \<Rightarrow> real \<Rightarrow> real option" where
  "value_terms [] vals s = Some s"
| "value_terms ((v, a) # ts) vals s =
     (case vals v of None \<Rightarrow> None | Some r \<Rightarrow> value_terms ts vals (s + r * a))"

definition pl_value :: "affine option \<Rightarrow> (var \<Rightarrow> real option) \<Rightarrow> real option" where
  "pl_value e vals = (case e of None \<Rightarrow> None | Some a \<Rightarrow> value_terms (terms a) vals (aconstant a))"

definition benefit_cost :: "(string \<times> real) list \<Rightarrow> (string \<times> real) list \<Rightarrow> (string \<times> real) list
    \<Rightarrow> (var \<Rightarrow> real option) \<Rightarrow> (real \<times> real) option" where
  "benefit_cost eff V C vals =
     fold (\<lambda>(i, j, m) acc. do {
             (b, c) \<leftarrow> acc;
             xv \<leftarrow> x_get (i, j, m);
             ej \<leftarrow> getitem eff j; vj \<leftarrow> getitem V j; ci \<leftarrow> getitem C i;
             Some (b + ej * vj * or_zero (vals xv), c + ci * or_zero (vals xv)) })
          x_keys (Some (0, 0))"

definition penalty_total_of :: "params \<Rightarrow> (var \<Rightarrow> real option) \<Rightarrow> real option" where
  "penalty_total_of p vals =
     map_option sum_list
       (those [do { w \<leftarrow> getitem (weight_dem p) j; uv \<leftarrow> u_get (j, m);
                    Some (penalty_usd_hm3 p * w * or_zero (vals uv)) }.
               j \<leftarrow> demands, m \<leftarrow> months])"

text \<open>
  Of the returned dictionary the fields below are kept; the row lists and the rounded
  summary are reporting and are left out.
\<close>

record result =
  status :: lp_status
  objective_value :: "real option"
  benefit_total :: real
  cost_total :: real
  penalty_total :: real

definition extract_totals :: "params \<Rightarrow> model \<Rightarrow> solution \<Rightarrow> result option" where
  "extract_totals p md sol = do {
     (b, c) \<leftarrow> benefit_cost (m_eff md) (tvalue (m_tables md)) (tcost (m_tables md)) (varValue sol);
     pen \<leftarrow> penalty_total_of p (varValue sol);
     Some \<lparr>status = sol_status sol,
           objective_value = pl_value (objective (m_prob md)) (varValue sol),
           benefit_total = b, cost_total = c, penalty_total = pen\<rparr> }"

subsection \<open>The whole run\<close>

definition build_and_solve :: "pulp \<Rightarrow> params \<Rightarrow> (error \<times> run_state) + result" where
  "build_and_solve env p =
     (case build_model p of
        Inl e \<Rightarrow> Inl e
      | Inr md \<Rightarrow>
          (let st = \<lparr>st_prob = Some (m_prob md), st_x = m_x md, st_u = m_u md\<rparr> in
           case solve env (select_solver env p) (m_prob md) of
             Inl e \<Rightarrow> Inl (Raised e, st)
           | Inr sol \<Rightarrow>
               (case extract_totals p md sol of
                  None \<Rightarrow> Inl (KeyError, st)
                | Some r \<Rightarrow> Inr r)))"

section \<open>Reference descriptions\<close>

text \<open>
  The definitions of this section are not part of the program. They say, in closed form,
  what the program is expected to build, and the theorems compare the two.
\<close>

subsection \<open>Conversion, weights and arcs as the specification words them\<close>

definition day_count :: "nat \<Rightarrow> int" where
  "day_count mi = [31, 28, 31, 30, 31, 30, 31, 31, 30, 31, 30, 31] ! mi"

definition seconds_in_month :: "nat \<Rightarrow> int" where
  "seconds_in_month mi = day_count mi * 24 * 3600"

definition to_hm3 :: "real \<Rightarrow> nat \<Rightarrow> real" where
  "to_hm3 flow_rate mi = flow_rate * real_of_int (seconds_in_month mi) / 1000000"

definition spec_adjusted :: "params \<Rightarrow> string \<Rightarrow> real \<Rightarrow> real" where
  "spec_adjusted p i base =
     (if i = ''Pozos_Chao'' then base * mult_pozos_chao p
      else if i = ''Pozos_Viru'' then base * mult_pozos_viru p
      else base)"

definition sector_weight :: "params \<Rightarrow> string \<Rightarrow> real" where
  "sector_weight p j =
     (if j = ''PTAP_Trujillo'' \<or> j = ''PTAP_Chao'' then weight_ptap p
      else if j = ''Industria'' \<or> j = ''Pecuario'' then weight_ind_pec p
      else weight_agro p)"

definition spec_arcs :: "(string \<times> string \<times> string) set" where
  "spec_arcs =
     {''Santa''} \<times> set demands \<times> set months
     \<union> {Huamanzana, ''Chorobal'', ''Dren_Chao'', ''Pozos_Chao''} \<times> {''Chao''} \<times> set months
     \<union> {''Viru_Rio'', ''Dren_Viru'', ''Pozos_Viru''} \<times> {''Viru''} \<times> set months"

subsection \<open>Feasible points\<close>

definition feasible :: "lpproblem \<Rightarrow> (var \<Rightarrow> real) \<Rightarrow> bool" where
  "feasible prob val \<longleftrightarrow>
     (\<forall>nc \<in> set (constraints prob). sat (snd nc) val) \<and> (\<forall>v \<in> set variables. lowBound v \<le> val v)"

subsection \<open>The constraints and the objective in closed form\<close>

text \<open>The value stored under a key; it is only used for keys that are present.\<close>

definition get0 :: "('k \<times> real) list \<Rightarrow> 'k \<Rightarrow> real" where
  "get0 d k = (case getitem d k of None \<Rightarrow> 0 | Some v \<Rightarrow> v)"

definition arc_sources :: "string \<Rightarrow> string \<Rightarrow> string list" where
  "arc_sources j m = [i \<leftarrow> sources. (i, j, m) \<in> set allowed_arcs]"

definition arc_demands :: "string \<Rightarrow> string \<Rightarrow> string list" where
  "arc_demands i m = [j \<leftarrow> demands. (i, j, m) \<in> set allowed_arcs]"

definition balance_c :: "real \<Rightarrow> real \<Rightarrow> string \<Rightarrow> string \<Rightarrow> string \<times> constraint" where
  "balance_c ej d j m =
     (''Balance_Dem_'' @ j @ ''_'' @ m,
      expr_eq (addInPlace (scale (lpSum (map var_expr (map (\<lambda>i. X i j m) (arc_sources j m)))) ej)
                          (var_expr (U j m))) d)"

definition oferta_c :: "real \<Rightarrow> string \<Rightarrow> string \<Rightarrow> string \<times> constraint" where
  "oferta_c q i m =
     (''Oferta_'' @ i @ ''_'' @ m,
      expr_le (lpSum (map var_expr (map (\<lambda>j. X i j m) (arc_demands i m)))) q)"

definition cap_c :: "real \<Rightarrow> string \<Rightarrow> string \<times> constraint" where
  "cap_c c m =
     (''Cap_Santa_'' @ m,
      expr_le (lpSum (map var_expr (map (\<lambda>j. X ''Santa'' j m) (arc_demands ''Santa'' m)))) c)"

definition deficit_c :: "string \<Rightarrow> string \<Rightarrow> string \<times> constraint" where
  "deficit_c j m = (''DeficitCero_'' @ j @ ''_'' @ m, expr_eq (var_expr (U j m)) 0)"

definition bal_list :: "(string \<times> real) list \<Rightarrow> ((string \<times> string) \<times> real) list
    \<Rightarrow> (string \<times> constraint) list" where
  "bal_list eff D =
     concat (map (\<lambda>j. map (\<lambda>m. balance_c (get0 eff j) (get0 D (j, m)) j m) months) demands)"

definition ofe_list :: "params \<Rightarrow> ((string \<times> string) \<times> real) list \<Rightarrow> (string \<times> constraint) list" where
  "ofe_list p Q =
     concat (map (\<lambda>i. map (\<lambda>m. oferta_c (spec_adjusted p i (get0 Q (i, m))) i m) months) sources)"

definition cap_list :: "(string \<times> real) list \<Rightarrow> (string \<times> constraint) list" where
  "cap_list C = map (\<lambda>m. cap_c (get0 C m) m) months"

definition dz_list :: "(string \<times> constraint) list" where
  "dz_list = concat (map (\<lambda>j. map (\<lambda>m. deficit_c j m) months) priority_demands)"

definition benefit_expr :: "(string \<times> real) list \<Rightarrow> (string \<times> real) list \<Rightarrow> (string \<times> real) list
    \<Rightarrow> affine" where
  "benefit_expr eff V C =
     lpSum (map (\<lambda>(i, j, m). scale (var_expr (X i j m)) (get0 eff j * get0 V j - get0 C i))
                allowed_arcs)"

definition penalty_expr :: "params \<Rightarrow> affine" where
  "penalty_expr p =
     lpSum (concat (map (\<lambda>j. map (\<lambda>m. scale (var_expr (U j m))
                    (penalty_usd_hm3 p * get0 (weight_dem p) j)) months) demands))"

definition built_problem :: "params \<Rightarrow> tables \<Rightarrow> (string \<times> real) list \<Rightarrow> lpproblem" where
  "built_problem p t eff =
     \<lparr>pname = ''CHAVI_Optim_Recursos_Hidricos'', psense = LpMaximize,
      objective = Some (sub (benefit_expr eff (tvalue t) (tcost t)) (penalty_expr p)),
      constraints = bal_list eff (tDhat t) @ ofe_list p (tQhat t) @ cap_list (tCapSanta t) @ dz_list\<rparr>"

subsection \<open>Example libraries\<close>

text \<open>
  The libraries below are used in examples only. Their \<^verbatim>\<open>str.lower\<close> is right on
  the code points the examples use: the ASCII capitals go to their small letters, the Kelvin
  sign U+212A goes to \<open>k\<close>, and the ASCII digits, small letters and underscore stay.
  Other code points are left as they are, which is not always what Python does; no example
  contains one.
\<close>

definition lower_cp :: "nat \<Rightarrow> nat" where
  "lower_cp c = (if 65 \<le> c \<and> c \<le> 90 then c + 32 else if c = 8490 then 107 else c)"

text \<open>Construction succeeds, solving leaves every variable without a value.\<close>

definition idle_pulp :: pulp where
  "idle_pulp =
     \<lparr>str_lower = map lower_cp,
      construct_raises = (\<lambda>s. None),
      solve = (\<lambda>s prob. Inr \<lparr>sol_status = Not_Solved, varValue = (\<lambda>v. None)\<rparr>)\<rparr>"



subsection \<open>What a run does with a given solver\<close>



section \<open>Lemmas\<close>

subsection \<open>Meaning of the expression operations\<close>

lemma sum_addterm:
  "(\<Sum>(v, a) \<leftarrow> addterm ts k c. a * val v) = (\<Sum>(v, a) \<leftarrow> ts. a * val v) + c * (val k :: real)"
  by (induction ts k c rule: addterm.induct) (simp_all add: algebra_simps)

lemma sum_fold_addterm:
  "(\<Sum>(v, a) \<leftarrow> fold (\<lambda>(v, a) ts. addterm ts v a) os ts. a * val v)
     = (\<Sum>(v, a) \<leftarrow> ts. a * val v) + (\<Sum>(v, a) \<leftarrow> os. a * (val v :: real))"
  by (induction os arbitrary: ts) (auto simp: sum_addterm)

lemma eval_addInPlace: "eval (addInPlace e other) val = eval e val + eval other val"
  by (simp add: eval_def addInPlace_def sum_fold_addterm)

lemma eval_empty_expr: "eval empty_expr val = 0"
  by (simp add: eval_def empty_expr_def)

lemma eval_var_expr: "eval (var_expr v) val = val v"
  by (simp add: eval_def var_expr_def)

lemma eval_scale: "eval (scale e c) val = eval e val * c"
proof -
  have "(\<Sum>(v, a) \<leftarrow> map (\<lambda>(v, a). (v, a * c)) ts. a * val v) = (\<Sum>(v, a) \<leftarrow> ts. a * val v) * c" for ts
    by (induction ts) (auto simp: algebra_simps)
  then show ?thesis by (simp add: eval_def scale_def algebra_simps)
qed

lemma eval_fold_addInPlace:
  "eval (fold (\<lambda>other e. addInPlace e other) es e0) val = eval e0 val + (\<Sum>e \<leftarrow> es. eval e val)"
  by (induction es arbitrary: e0) (simp_all add: eval_addInPlace)

lemma eval_lpSum: "eval (lpSum es) val = (\<Sum>e \<leftarrow> es. eval e val)"
  by (simp add: lpSum_def eval_fold_addInPlace eval_empty_expr)

lemma eval_lpSum_vars: "eval (lpSum (map var_expr vs)) val = (\<Sum>v \<leftarrow> vs. val v)"
  by (simp add: eval_lpSum eval_var_expr comp_def)

lemma eval_sub: "eval (sub e other) val = eval e val - eval other val"
  by (simp add: sub_def eval_addInPlace eval_scale)

subsection \<open>Comprehensions and loops that do not raise\<close>

lemma those_map_Some: "(\<And>x. x \<in> set xs \<Longrightarrow> f x = Some (g x)) \<Longrightarrow> those (map f xs) = Some (map g xs)"
  by (induction xs) simp_all

lemma those_append: "those xs = Some as \<Longrightarrow> those ys = Some bs \<Longrightarrow> those (xs @ ys) = Some (as @ bs)"
  by (induction xs arbitrary: as) (auto split: option.splits)

lemma those_concat_Some:
  "(\<And>x. x \<in> set xs \<Longrightarrow> those (f x) = Some (g x)) \<Longrightarrow> those (concat (map f xs)) = Some (concat (map g xs))"
  by (induction xs) (simp_all add: those_append)

lemma those_guarded:
  "(\<And>i. P i \<Longrightarrow> f i = Some (g i)) \<Longrightarrow>
   those (concat (map (\<lambda>i. if P i then [f i] else []) xs)) = Some (map g (filter P xs))"
  by (induction xs) simp_all

lemma for_each_Inr:
  "(\<And>a s. a \<in> set as \<Longrightarrow> body a s = Inr (g a s)) \<Longrightarrow> for_each as body s = Inr (fold g as s)"
  by (induction as arbitrary: s) simp_all

lemma fold_add_constraint:
  "fold (\<lambda>a pr. add_constraint pr (c a)) as pr = pr\<lparr>constraints := constraints pr @ map c as\<rparr>"
  by (induction as arbitrary: pr) (simp_all add: add_constraint_def)

lemma for_each_add:
  "(\<And>a. a \<in> set as \<Longrightarrow> f a = Some (c a)) \<Longrightarrow>
   for_each as (\<lambda>a. add_or_raise (f a)) pr = Inr (pr\<lparr>constraints := constraints pr @ map c as\<rparr>)"
proof -
  assume h: "\<And>a. a \<in> set as \<Longrightarrow> f a = Some (c a)"
  have "for_each as (\<lambda>a. add_or_raise (f a)) pr = Inr (fold (\<lambda>a pr. add_constraint pr (c a)) as pr)"
    by (rule for_each_Inr) (simp add: h add_or_raise_def)
  then show ?thesis by (simp add: fold_add_constraint)
qed

lemma fold_add_block:
  "fold (\<lambda>a pr. pr\<lparr>constraints := constraints pr @ blk a\<rparr>) as pr
     = pr\<lparr>constraints := constraints pr @ concat (map blk as)\<rparr>"
  by (induction as arbitrary: pr) simp_all

lemma for_each_nested:
  "(\<And>a b. a \<in> set as \<Longrightarrow> b \<in> set bs \<Longrightarrow> f a b = Some (c a b)) \<Longrightarrow>
   for_each as (\<lambda>a. for_each bs (\<lambda>b. add_or_raise (f a b))) pr
     = Inr (pr\<lparr>constraints := constraints pr @ concat (map (\<lambda>a. map (c a) bs) as)\<rparr>)"
proof -
  assume h: "\<And>a b. a \<in> set as \<Longrightarrow> b \<in> set bs \<Longrightarrow> f a b = Some (c a b)"
  have "for_each as (\<lambda>a. for_each bs (\<lambda>b. add_or_raise (f a b))) pr
      = Inr (fold (\<lambda>a pr. pr\<lparr>constraints := constraints pr @ map (c a) bs\<rparr>) as pr)"
    by (rule for_each_Inr) (simp add: for_each_add h)
  then show ?thesis by (simp add: fold_add_block)
qed

subsection \<open>The tables have the expected keys\<close>

lemmas data_defs = sources_def demands_def months_def days_def Huamanzana_def

lemma secs_val: "secs = [(''Ene'', 2678400), (''Feb'', 2419200), (''Mar'', 2678400), (''Abr'', 2592000),
  (''May'', 2678400), (''Jun'', 2592000), (''Jul'', 2678400), (''Ago'', 2678400), (''Sep'', 2592000),
  (''Oct'', 2678400), (''Nov'', 2592000), (''Dic'', 2678400)]"
  by (simp add: secs_def months_def days_def)

lemma Qhat_keys: "\<exists>Q. Qhat = Some Q \<and> map fst Q = List.product sources months"
  by (simp add: Qhat_def secs_val getitem_def index_def data_defs offer_m3s_def)

lemma Dhat_keys: "\<exists>D. Dhat = Some D \<and> map fst D = List.product demands months"
  by (simp add: Dhat_def secs_val getitem_def index_def data_defs demand_m3s_def)

lemma CapSanta_keys: "\<exists>C. CapSanta p = Some C \<and> map fst C = months"
  by (simp add: CapSanta_def secs_val getitem_def data_defs)

lemma cost_keys: "\<exists>C. cost_offer_USD_hm3 = Some C \<and> map fst C = sources"
  by (simp add: cost_offer_USD_hm3_def cost_offer_USD_m3_def getitem_def data_defs)

lemma value_keys: "\<exists>V. value_dem_USD_hm3 = Some V \<and> map fst V = demands"
  by (simp add: value_dem_USD_hm3_def value_dem_USD_m3_def getitem_def data_defs)

lemma eff_keys: "s \<in> {''S1'', ''S2''} \<Longrightarrow> \<exists>eff. getitem efficiencies s = Some eff \<and> map fst eff = demands"
  by (auto simp add: efficiencies_def getitem_def data_defs)

lemma weight_keys: "map fst (weight_dem p) = demands"
  by (simp add: weight_dem_def comp_def)

lemma getitem_keys: "map fst d = ks \<Longrightarrow> k \<in> set ks \<Longrightarrow> \<exists>v. getitem d k = Some v"
proof -
  assume a: "map fst d = ks" "k \<in> set ks"
  then have "k \<in> fst ` set d" by (metis list.set_map)
  then have "map_of d k \<noteq> None" by (simp add: map_of_eq_None_iff)
  then show ?thesis by (auto simp: getitem_def)
qed

lemma get0_Some: "getitem d k = Some v \<Longrightarrow> get0 d k = v"
  by (simp add: get0_def)

lemma getitem_get0: "map fst d = ks \<Longrightarrow> k \<in> set ks \<Longrightarrow> getitem d k = Some (get0 d k)"
  using getitem_keys[of d ks k] by (auto simp: get0_def)

subsection \<open>Each statement of the model section succeeds\<close>

lemma x_get_arc: "(i, j, m) \<in> set allowed_arcs \<Longrightarrow> x_get (i, j, m) = Some (X i j m)"
  by (simp add: x_get_def x_keys_def)

lemma u_get_key: "j \<in> set demands \<Longrightarrow> m \<in> set months \<Longrightarrow> u_get (j, m) = Some (U j m)"
  by (auto simp add: u_get_def u_keys_def)

lemma balance_dem_Some:
  assumes "j \<in> set demands" "m \<in> set months" "getitem D (j, m) = Some d"
  shows "balance_dem D ej j m = Some (balance_c ej d j m)"
proof -
  have "those [x_get (i, j, m). i \<leftarrow> sources, (i, j, m) \<in> set x_keys]
          = Some (map (\<lambda>i. X i j m) (arc_sources j m))"
    unfolding arc_sources_def x_keys_def by (rule those_guarded) (rule x_get_arc)
  then show ?thesis
    using assms by (simp add: balance_dem_def balance_c_def u_get_key)
qed

lemma Qhat_adjusted_Some:
  "getitem Q (i, m) = Some q \<Longrightarrow> Qhat_adjusted p Q i m = Some (spec_adjusted p i q)"
  by (simp add: Qhat_adjusted_def spec_adjusted_def)

lemma oferta_Some:
  assumes "getitem Q (i, m) = Some q"
  shows "oferta p Q i m = Some (oferta_c (spec_adjusted p i q) i m)"
proof -
  have "those [x_get (i, j, m). j \<leftarrow> demands, (i, j, m) \<in> set x_keys]
          = Some (map (\<lambda>j. X i j m) (arc_demands i m))"
    unfolding arc_demands_def x_keys_def by (rule those_guarded) (rule x_get_arc)
  then show ?thesis
    using Qhat_adjusted_Some[OF assms] by (simp add: oferta_def oferta_c_def)
qed

lemma cap_santa_Some:
  assumes "getitem C m = Some c"
  shows "cap_santa C m = Some (cap_c c m)"
proof -
  have "those [x_get (''Santa'', j, m). j \<leftarrow> demands, (''Santa'', j, m) \<in> set x_keys]
          = Some (map (\<lambda>j. X ''Santa'' j m) (arc_demands ''Santa'' m))"
    unfolding arc_demands_def x_keys_def by (rule those_guarded) (rule x_get_arc)
  then show ?thesis
    using assms by (simp add: cap_santa_def cap_c_def)
qed

lemma deficit_cero_Some:
  assumes "j \<in> set demands" "m \<in> set months"
  shows "deficit_cero j m = Some (deficit_c j m)"
  using assms by (simp add: deficit_cero_def deficit_c_def u_get_key)

lemma add_balance_ok:
  assumes "map fst eff = demands" "map fst D = List.product demands months"
  shows "add_balance D eff pr = Inr (pr\<lparr>constraints := constraints pr @ bal_list eff D\<rparr>)"
proof -
  have inner: "for_each months (\<lambda>m. add_or_raise (balance_dem D (get0 eff j) j m)) s
        = Inr (s\<lparr>constraints := constraints s @
             map (\<lambda>m. balance_c (get0 eff j) (get0 D (j, m)) j m) months\<rparr>)"
    if "j \<in> set demands" for j s
  proof (rule for_each_add)
    fix m assume m: "m \<in> set months"
    with that have "(j, m) \<in> set (List.product demands months)" by simp
    from getitem_get0[OF assms(2) this] that m
    show "balance_dem D (get0 eff j) j m = Some (balance_c (get0 eff j) (get0 D (j, m)) j m)"
      by (simp add: balance_dem_Some)
  qed
  have "add_balance D eff pr = Inr (fold (\<lambda>j s. s\<lparr>constraints := constraints s @
             map (\<lambda>m. balance_c (get0 eff j) (get0 D (j, m)) j m) months\<rparr>) demands pr)"
    unfolding add_balance_def
  proof (rule for_each_Inr)
    fix j s assume j: "j \<in> set demands"
    from getitem_get0[OF assms(1) j] inner[OF j, of s]
    show "(case getitem eff j of None \<Rightarrow> Inl s
            | Some ej \<Rightarrow> for_each months (\<lambda>m. add_or_raise (balance_dem D ej j m)) s)
          = Inr (s\<lparr>constraints := constraints s @
             map (\<lambda>m. balance_c (get0 eff j) (get0 D (j, m)) j m) months\<rparr>)"
      by simp
  qed
  then show ?thesis by (simp add: fold_add_block bal_list_def)
qed

lemma add_oferta_ok:
  assumes "map fst Q = List.product sources months"
  shows "add_oferta p Q pr = Inr (pr\<lparr>constraints := constraints pr @ ofe_list p Q\<rparr>)"
  unfolding add_oferta_def ofe_list_def
proof (rule for_each_nested)
  fix i m assume "i \<in> set sources" "m \<in> set months"
  then have "(i, m) \<in> set (List.product sources months)" by simp
  from getitem_get0[OF assms this]
  show "oferta p Q i m = Some (oferta_c (spec_adjusted p i (get0 Q (i, m))) i m)"
    by (rule oferta_Some)
qed

lemma add_cap_santa_ok:
  assumes "map fst C = months"
  shows "add_cap_santa C pr = Inr (pr\<lparr>constraints := constraints pr @ cap_list C\<rparr>)"
  unfolding add_cap_santa_def cap_list_def
proof (rule for_each_add)
  fix m assume "m \<in> set months"
  from getitem_get0[OF assms this]
  show "cap_santa C m = Some (cap_c (get0 C m) m)"
    by (rule cap_santa_Some)
qed

lemma priority_subset: "set priority_demands \<subseteq> set demands"
  by (simp add: priority_demands_def demands_def)

lemma add_deficit_cero_ok:
  "add_deficit_cero pr = Inr (pr\<lparr>constraints := constraints pr @ dz_list\<rparr>)"
  unfolding add_deficit_cero_def dz_list_def
proof (rule for_each_nested)
  fix j m assume "j \<in> set priority_demands" "m \<in> set months"
  then show "deficit_cero j m = Some (deficit_c j m)"
    using priority_subset by (auto simp: deficit_cero_Some)
qed

lemma arcs_in_range:
  "(i, j, m) \<in> set allowed_arcs \<Longrightarrow> i \<in> set sources \<and> j \<in> set demands \<and> m \<in> set months"
  by (auto simp: allowed_arcs_def sources_def demands_def)

lemma comprehension_triples:
  "[f i j m. (i, j, m) \<leftarrow> xs] = map (\<lambda>(i, j, m). f i j m) xs"
  by (induction xs) auto

lemma benefit_term_ok:
  assumes "map fst eff = demands" "map fst V = demands" "map fst C = sources"
  shows "benefit_term eff V C = Some (benefit_expr eff V C)"
proof -
  have "those (map (\<lambda>(i, j, m). do { ej \<leftarrow> getitem eff j; vj \<leftarrow> getitem V j; ci \<leftarrow> getitem C i;
                    xv \<leftarrow> x_get (i, j, m);
                    Some (scale (var_expr xv) (ej * vj - ci)) }) allowed_arcs)
        = Some (map (\<lambda>(i, j, m). scale (var_expr (X i j m))
                    (get0 eff j * get0 V j - get0 C i)) allowed_arcs)"
  proof (rule those_map_Some)
    fix a assume a: "a \<in> set allowed_arcs"
    obtain i j m where [simp]: "a = (i, j, m)" by (cases a) auto
    from a have r: "i \<in> set sources" "j \<in> set demands" using arcs_in_range by auto
    from getitem_get0[OF assms(1) r(2)] getitem_get0[OF assms(2) r(2)] getitem_get0[OF assms(3) r(1)] a
    show "(case a of (i, j, m) \<Rightarrow> do { ej \<leftarrow> getitem eff j; vj \<leftarrow> getitem V j; ci \<leftarrow> getitem C i;
                    xv \<leftarrow> x_get (i, j, m);
                    Some (scale (var_expr xv) (ej * vj - ci)) })
         = Some (case a of (i, j, m) \<Rightarrow> scale (var_expr (X i j m))
                    (get0 eff j * get0 V j - get0 C i))"
      by (simp add: x_get_arc)
  qed
  moreover have "[do { ej \<leftarrow> getitem eff j; vj \<leftarrow> getitem V j; ci \<leftarrow> getitem C i;
                    xv \<leftarrow> x_get (i, j, m);
                    Some (scale (var_expr xv) (ej * vj - ci)) }. (i, j, m) \<leftarrow> x_keys]
      = map (\<lambda>(i, j, m). do { ej \<leftarrow> getitem eff j; vj \<leftarrow> getitem V j; ci \<leftarrow> getitem C i;
                    xv \<leftarrow> x_get (i, j, m);
                    Some (scale (var_expr xv) (ej * vj - ci)) }) allowed_arcs"
    unfolding x_keys_def by (rule comprehension_triples)
  ultimately show ?thesis
    by (simp only: benefit_term_def benefit_expr_def option.map)
qed

lemma penalty_term_ok: "penalty_term p = Some (penalty_expr p)"
proof -
  have "those (concat (map (\<lambda>j. map (\<lambda>m. do { w \<leftarrow> getitem (weight_dem p) j; uv \<leftarrow> u_get (j, m);
                    Some (scale (var_expr uv) (penalty_usd_hm3 p * w)) }) months) demands))
      = Some (concat (map (\<lambda>j. map (\<lambda>m. scale (var_expr (U j m))
                    (penalty_usd_hm3 p * get0 (weight_dem p) j)) months) demands))"
  proof (rule those_concat_Some, rule those_map_Some)
    fix j m assume jm: "j \<in> set demands" "m \<in> set months"
    from getitem_get0[OF weight_keys jm(1)] jm
    show "do { w \<leftarrow> getitem (weight_dem p) j; uv \<leftarrow> u_get (j, m);
                    Some (scale (var_expr uv) (penalty_usd_hm3 p * w)) }
          = Some (scale (var_expr (U j m)) (penalty_usd_hm3 p * get0 (weight_dem p) j))"
      by (simp add: u_get_key)
  qed
  then show ?thesis by (simp add: penalty_term_def penalty_expr_def)
qed

subsection \<open>The model that is built\<close>

lemma prepare_ok:
  "\<exists>t. prepare p = Some t \<and> Qhat = Some (tQhat t) \<and> Dhat = Some (tDhat t)
       \<and> CapSanta p = Some (tCapSanta t) \<and> cost_offer_USD_hm3 = Some (tcost t)
       \<and> value_dem_USD_hm3 = Some (tvalue t)
       \<and> map fst (tQhat t) = List.product sources months
       \<and> map fst (tDhat t) = List.product demands months
       \<and> map fst (tCapSanta t) = months \<and> map fst (tcost t) = sources
       \<and> map fst (tvalue t) = demands"
proof -
  obtain Q where Q: "Qhat = Some Q" "map fst Q = List.product sources months" using Qhat_keys by auto
  obtain D where D: "Dhat = Some D" "map fst D = List.product demands months" using Dhat_keys by auto
  obtain C where C: "CapSanta p = Some C" "map fst C = months" using CapSanta_keys by auto
  obtain co where co: "cost_offer_USD_hm3 = Some co" "map fst co = sources" using cost_keys by auto
  obtain va where va: "value_dem_USD_hm3 = Some va" "map fst va = demands" using value_keys by auto
  have "prepare p = Some \<lparr>tQhat = Q, tDhat = D, tCapSanta = C, tcost = co, tvalue = va\<rparr>"
    unfolding prepare_def Q(1) D(1) C(1) co(1) va(1) by simp
  then show ?thesis using Q D C co va by simp
qed

lemma fill_problem_ok:
  assumes "map fst eff = demands"
    and "map fst (tQhat t) = List.product sources months"
    and "map fst (tDhat t) = List.product demands months"
    and "map fst (tCapSanta t) = months" and "map fst (tcost t) = sources"
    and "map fst (tvalue t) = demands"
  shows "fill_problem p t eff (LpProblem ''CHAVI_Optim_Recursos_Hidricos'' LpMaximize)
           = Inr (built_problem p t eff)"
  unfolding fill_problem_def
  by (simp add: add_balance_ok[OF assms(1,3)] add_oferta_ok[OF assms(2)] add_cap_santa_ok[OF assms(4)]
      add_deficit_cero_ok and_then_def add_objective_def benefit_term_ok[OF assms(1,6,5)]
      penalty_term_ok set_objective_def LpProblem_def built_problem_def)

lemma build_model_ok:
  assumes "scenario p \<in> {''S1'', ''S2''}"
  shows "\<exists>t eff. prepare p = Some t \<and> getitem efficiencies (scenario p) = Some eff
           \<and> map fst eff = demands
           \<and> build_model p = Inr \<lparr>m_tables = t, m_eff = eff, m_x = x_vars, m_u = u_vars,
                                   m_prob = built_problem p t eff\<rparr>"
proof -
  obtain t where t: "prepare p = Some t" "map fst (tQhat t) = List.product sources months"
      "map fst (tDhat t) = List.product demands months" "map fst (tCapSanta t) = months"
      "map fst (tcost t) = sources" "map fst (tvalue t) = demands"
    using prepare_ok[of p] by auto
  obtain eff where e: "getitem efficiencies (scenario p) = Some eff" "map fst eff = demands"
    using eff_keys[OF assms] by auto
  have "build_model p = Inr \<lparr>m_tables = t, m_eff = eff, m_x = x_vars, m_u = u_vars,
                             m_prob = built_problem p t eff\<rparr>"
    by (simp add: build_model_def t(1) e(1) fill_problem_ok[OF e(2) t(2,3,4,5,6)])
  with t e show ?thesis by blast
qed

subsection \<open>Variables that occur in an expression\<close>

lemma keys_addterm: "fst ` set (addterm ts k c) = insert k (fst ` set ts)"
  by (induction ts k c rule: addterm.induct) auto

lemma keys_fold_addterm:
  "fst ` set (fold (\<lambda>(v, a) ts. addterm ts v a) os ts) = fst ` set ts \<union> fst ` set os"
  by (induction os arbitrary: ts) (simp_all add: keys_addterm case_prod_beta)

lemma keys_addInPlace:
  "fst ` set (terms (addInPlace e other)) = fst ` set (terms e) \<union> fst ` set (terms other)"
  by (simp add: addInPlace_def keys_fold_addterm)

lemma keys_fold_addInPlace:
  "fst ` set (terms (fold (\<lambda>other e. addInPlace e other) es e0))
     = fst ` set (terms e0) \<union> (\<Union>e \<in> set es. fst ` set (terms e))"
  by (induction es arbitrary: e0) (simp_all add: keys_addInPlace Un_assoc)

lemma keys_lpSum: "fst ` set (terms (lpSum es)) = (\<Union>e \<in> set es. fst ` set (terms e))"
  by (simp add: lpSum_def keys_fold_addInPlace empty_expr_def)

lemma keys_scale: "fst ` set (terms (scale e c)) = fst ` set (terms e)"
  by (force simp: scale_def)

lemma keys_var_expr: "fst ` set (terms (var_expr v)) = {v}"
  by (simp add: var_expr_def)

lemma keys_sub: "fst ` set (terms (sub e other)) = fst ` set (terms e) \<union> fst ` set (terms other)"
  by (simp add: sub_def keys_addInPlace keys_scale)

subsection \<open>Meaning of the objective\<close>

lemma eval_benefit_expr:
  "eval (benefit_expr eff V C) val
     = (\<Sum>(i, j, m) \<leftarrow> allowed_arcs. (get0 eff j * get0 V j - get0 C i) * val (X i j m))"
proof -
  have "(\<Sum>e \<leftarrow> map (\<lambda>(i, j, m). scale (var_expr (X i j m)) (get0 eff j * get0 V j - get0 C i)) xs.
            eval e val)
      = (\<Sum>(i, j, m) \<leftarrow> xs. (get0 eff j * get0 V j - get0 C i) * val (X i j m))" for xs
    by (induction xs) (auto simp: eval_scale eval_var_expr mult.commute)
  then show ?thesis by (simp only: benefit_expr_def eval_lpSum)
qed

lemma eval_penalty_expr:
  "eval (penalty_expr p) val
     = (\<Sum>j \<leftarrow> demands. \<Sum>m \<leftarrow> months. penalty_usd_hm3 p * get0 (weight_dem p) j * val (U j m))"
proof -
  have inner: "(\<Sum>m \<leftarrow> ms. eval (scale (var_expr (U j m)) c) val)
      = (\<Sum>m \<leftarrow> ms. c * val (U j m))" for j c ms
    by (simp add: eval_scale eval_var_expr mult.commute)
  have "(\<Sum>e \<leftarrow> concat (map (\<lambda>j. map (\<lambda>m. scale (var_expr (U j m)) (c j)) ms) js). eval e val)
      = (\<Sum>j \<leftarrow> js. \<Sum>m \<leftarrow> ms. c j * val (U j m))" for c js ms
    by (induction js) (simp_all add: inner comp_def)
  then show ?thesis by (simp only: penalty_expr_def eval_lpSum)
qed

lemma keys_benefit_expr:
  "fst ` set (terms (benefit_expr eff V C)) = (\<lambda>(i, j, m). X i j m) ` set allowed_arcs"
  by (simp add: benefit_expr_def keys_lpSum keys_scale keys_var_expr case_prod_beta
      UNION_singleton_eq_range)

lemma keys_penalty_expr:
  "fst ` set (terms (penalty_expr p)) = (\<lambda>(j, m). U j m) ` (set demands \<times> set months)"
  by (auto simp: penalty_expr_def keys_lpSum keys_scale keys_var_expr)

lemma set_variables:
  "set variables = (\<lambda>(i, j, m). X i j m) ` set allowed_arcs \<union> (\<lambda>(j, m). U j m) ` (set demands \<times> set months)"
  by (auto simp: variables_def x_keys_def u_keys_def)

subsection \<open>Extraction\<close>

lemma value_terms_Some:
  "(\<And>v a. (v, a) \<in> set ts \<Longrightarrow> vals v \<noteq> None) \<Longrightarrow>
   value_terms ts vals s = Some (s + (\<Sum>(v, a) \<leftarrow> ts. a * or_zero (vals v)))"
proof (induction ts arbitrary: s)
  case Nil
  then show ?case by simp
next
  case (Cons x ts)
  obtain v a where x: "x = (v, a)" by (cases x)
  with Cons.prems obtain r where r: "vals v = Some r" by fastforce
  have "value_terms ts vals (s + r * a) = Some (s + r * a + (\<Sum>(v, a) \<leftarrow> ts. a * or_zero (vals v)))"
    by (rule Cons.IH) (use Cons.prems in auto)
  with x r show ?case by (simp add: or_zero_def algebra_simps)
qed

lemma benefit_cost_fold:
  assumes "map fst eff = demands" "map fst V = demands" "map fst C = sources"
    and "set xs \<subseteq> set allowed_arcs"
  shows "fold (\<lambda>(i, j, m) acc. do {
             (b, c) \<leftarrow> acc;
             xv \<leftarrow> x_get (i, j, m);
             ej \<leftarrow> getitem eff j; vj \<leftarrow> getitem V j; ci \<leftarrow> getitem C i;
             Some (b + ej * vj * or_zero (vals xv), c + ci * or_zero (vals xv)) })
          xs (Some (b0, c0))
     = Some (b0 + (\<Sum>(i, j, m) \<leftarrow> xs. get0 eff j * get0 V j * or_zero (vals (X i j m))),
             c0 + (\<Sum>(i, j, m) \<leftarrow> xs. get0 C i * or_zero (vals (X i j m))))"
  using assms(4)
proof (induction xs arbitrary: b0 c0)
  case Nil
  then show ?case by simp
next
  case (Cons a xs)
  obtain i j m where a: "a = (i, j, m)" by (cases a) auto
  with Cons.prems have arc: "(i, j, m) \<in> set allowed_arcs" by simp
  then have r: "i \<in> set sources" "j \<in> set demands" using arcs_in_range by auto
  note g = getitem_get0[OF assms(1) r(2)] getitem_get0[OF assms(2) r(2)] getitem_get0[OF assms(3) r(1)]
  from Cons.prems have sub: "set xs \<subseteq> set allowed_arcs" by simp
  show ?case
    by (simp add: a g x_get_arc[OF arc] Cons.IH[OF sub] add.assoc)
qed

lemma benefit_cost_ok:
  assumes "map fst eff = demands" "map fst V = demands" "map fst C = sources"
  shows "benefit_cost eff V C vals
     = Some ((\<Sum>(i, j, m) \<leftarrow> allowed_arcs. get0 eff j * get0 V j * or_zero (vals (X i j m))),
             (\<Sum>(i, j, m) \<leftarrow> allowed_arcs. get0 C i * or_zero (vals (X i j m))))"
  unfolding benefit_cost_def x_keys_def
  using benefit_cost_fold[OF assms subset_refl, of vals 0 0] by simp

lemma penalty_total_ok:
  "penalty_total_of p vals
     = Some (\<Sum>j \<leftarrow> demands. \<Sum>m \<leftarrow> months.
               penalty_usd_hm3 p * get0 (weight_dem p) j * or_zero (vals (U j m)))"
proof -
  have "those (concat (map (\<lambda>j. map (\<lambda>m. do { w \<leftarrow> getitem (weight_dem p) j; uv \<leftarrow> u_get (j, m);
                    Some (penalty_usd_hm3 p * w * or_zero (vals uv)) }) months) demands))
      = Some (concat (map (\<lambda>j. map (\<lambda>m. penalty_usd_hm3 p * get0 (weight_dem p) j
                                        * or_zero (vals (U j m))) months) demands))"
  proof (rule those_concat_Some, rule those_map_Some)
    fix j m assume jm: "j \<in> set demands" "m \<in> set months"
    from getitem_get0[OF weight_keys jm(1)] jm
    show "do { w \<leftarrow> getitem (weight_dem p) j; uv \<leftarrow> u_get (j, m);
                    Some (penalty_usd_hm3 p * w * or_zero (vals uv)) }
          = Some (penalty_usd_hm3 p * get0 (weight_dem p) j * or_zero (vals (U j m)))"
      by (simp add: u_get_key)
  qed
  moreover have "sum_list (concat (map (\<lambda>j. map (f j) ms) js)) = (\<Sum>j \<leftarrow> js. \<Sum>m \<leftarrow> ms. (f j m :: real))"
    for f ms js by (induction js) simp_all
  ultimately show ?thesis by (simp add: penalty_total_of_def)
qed

subsection \<open>Facts used by several claims\<close>

lemma sum_list_cong: "(\<And>x. x \<in> set xs \<Longrightarrow> f x = g x) \<Longrightarrow> sum_list (map f xs) = sum_list (map g xs)"
  by (induction xs) simp_all

lemma weight_sector: "j \<in> set demands \<Longrightarrow> getitem (weight_dem p) j = Some (sector_weight p j)"
  by (simp add: weight_dem_def getitem_def map_of_map_restrict sector_weight_def)

lemma unknown_scenario: "s \<notin> {''S1'', ''S2''} \<Longrightarrow> getitem efficiencies s = None"
  by (simp add: efficiencies_def getitem_def)

lemma eval_objective:
  "eval (sub (benefit_expr eff V C) (penalty_expr p)) val
     = (\<Sum>(i, j, m) \<leftarrow> allowed_arcs. (get0 eff j * get0 V j - get0 C i) * val (X i j m))
       - (\<Sum>j \<leftarrow> demands. \<Sum>m \<leftarrow> months. penalty_usd_hm3 p * sector_weight p j * val (U j m))"
proof -
  have "(\<Sum>j \<leftarrow> demands. \<Sum>m \<leftarrow> months. penalty_usd_hm3 p * get0 (weight_dem p) j * val (U j m))
      = (\<Sum>j \<leftarrow> demands. \<Sum>m \<leftarrow> months. penalty_usd_hm3 p * sector_weight p j * val (U j m))"
    by (rule sum_list_cong) (simp add: get0_Some[OF weight_sector])
  then show ?thesis by (simp add: eval_sub eval_benefit_expr eval_penalty_expr)
qed

lemma split_margin:
  "(\<Sum>(i, j, m) \<leftarrow> xs. (f i j m - g i j m) * (h i j m :: real))
     = (\<Sum>(i, j, m) \<leftarrow> xs. f i j m * h i j m) - (\<Sum>(i, j, m) \<leftarrow> xs. g i j m * h i j m)"
  by (induction xs) (auto simp: algebra_simps)

lemma objective_keys:
  "fst ` set (terms (sub (benefit_expr eff V C) (penalty_expr p))) = set variables"
  by (simp add: keys_sub keys_benefit_expr keys_penalty_expr set_variables)

lemma pl_value_defined:
  assumes "\<forall>v \<in> set variables. vals v \<noteq> None"
  shows "pl_value (Some (sub (benefit_expr eff V C) (penalty_expr p))) vals
           = Some (eval (sub (benefit_expr eff V C) (penalty_expr p)) (\<lambda>v. or_zero (vals v)))"
proof -
  let ?e = "sub (benefit_expr eff V C) (penalty_expr p)"
  have "vals v \<noteq> None" if "(v, a) \<in> set (terms ?e)" for v a
  proof -
    from that have "v \<in> fst ` set (terms ?e)" by force
    with assms show ?thesis by (simp add: objective_keys)
  qed
  then have "value_terms (terms ?e) vals (aconstant ?e)
      = Some (aconstant ?e + (\<Sum>(v, a) \<leftarrow> terms ?e. a * or_zero (vals v)))"
    by (rule value_terms_Some)
  then show ?thesis by (simp add: pl_value_def eval_def)
qed

lemma extract_totals_ok:
  assumes "map fst eff = demands" "map fst (tvalue t) = demands" "map fst (tcost t) = sources"
  shows "extract_totals p \<lparr>m_tables = t, m_eff = eff, m_x = xs, m_u = us, m_prob = pr\<rparr> sol
     = Some \<lparr>status = sol_status sol,
             objective_value = pl_value (objective pr) (varValue sol),
             benefit_total = (\<Sum>(i, j, m) \<leftarrow> allowed_arcs.
                 get0 eff j * get0 (tvalue t) j * or_zero (varValue sol (X i j m))),
             cost_total = (\<Sum>(i, j, m) \<leftarrow> allowed_arcs.
                 get0 (tcost t) i * or_zero (varValue sol (X i j m))),
             penalty_total = (\<Sum>j \<leftarrow> demands. \<Sum>m \<leftarrow> months.
                 penalty_usd_hm3 p * get0 (weight_dem p) j * or_zero (varValue sol (U j m)))\<rparr>"
  by (simp add: extract_totals_def benefit_cost_ok[OF assms] penalty_total_ok)

lemma length_x_vars: "length x_vars = 204"
  by (simp add: x_vars_def x_keys_def allowed_arcs_def demands_def months_def length_concat)

lemma length_u_vars: "length u_vars = 120"
  by (simp add: u_vars_def u_keys_def demands_def months_def length_concat)

lemma run_after_build:
  assumes "scenario p \<in> {''S1'', ''S2''}"
  shows "\<exists>t eff.
     build_model p = Inr \<lparr>m_tables = t, m_eff = eff, m_x = x_vars, m_u = u_vars,
                            m_prob = built_problem p t eff\<rparr>
     \<and> map fst eff = demands \<and> map fst (tvalue t) = demands \<and> map fst (tcost t) = sources
     \<and> getitem efficiencies (scenario p) = Some eff
     \<and> value_dem_USD_hm3 = Some (tvalue t) \<and> cost_offer_USD_hm3 = Some (tcost t)
     \<and> Qhat = Some (tQhat t) \<and> Dhat = Some (tDhat t) \<and> CapSanta p = Some (tCapSanta t)
     \<and> map fst (tQhat t) = List.product sources months
     \<and> map fst (tDhat t) = List.product demands months
     \<and> map fst (tCapSanta t) = months"
proof -
  obtain t eff where b: "prepare p = Some t" "getitem efficiencies (scenario p) = Some eff"
      "map fst eff = demands"
      "build_model p = Inr \<lparr>m_tables = t, m_eff = eff, m_x = x_vars, m_u = u_vars,
                            m_prob = built_problem p t eff\<rparr>"
    using build_model_ok[OF assms] by blast
  obtain t' where t': "prepare p = Some t'" "Qhat = Some (tQhat t')" "Dhat = Some (tDhat t')"
      "CapSanta p = Some (tCapSanta t')" "cost_offer_USD_hm3 = Some (tcost t')"
      "value_dem_USD_hm3 = Some (tvalue t')"
      "map fst (tQhat t') = List.product sources months"
      "map fst (tDhat t') = List.product demands months"
      "map fst (tCapSanta t') = months" "map fst (tcost t') = sources"
      "map fst (tvalue t') = demands"
    using prepare_ok[of p] by blast
  from b(1) t'(1) have "t' = t" by simp
  with b t' show ?thesis by blast
qed

lemma value_hm3_entries:
  "\<exists>V. value_dem_USD_hm3 = Some V
       \<and> (\<forall>j \<in> set demands. getitem V j = Some (get0 value_dem_USD_m3 j * 1000000))"
  by (simp add: value_dem_USD_hm3_def value_dem_USD_m3_def getitem_def get0_def demands_def)

lemma cost_hm3_entries:
  "\<exists>C. cost_offer_USD_hm3 = Some C
       \<and> (\<forall>i \<in> set sources. getitem C i = Some (get0 cost_offer_USD_m3 i * 1000000))"
  by (simp add: cost_offer_USD_hm3_def cost_offer_USD_m3_def getitem_def get0_def sources_def
      Huamanzana_def)

lemma sum_zero_triples: "(\<Sum>(i, j, m) \<leftarrow> xs. (0::real)) = 0"
  by (induction xs) auto

lemma eval_lpSum_image: "eval (lpSum (map (var_expr \<circ> f) xs)) val = (\<Sum>x \<leftarrow> xs. val (f x))"
  by (simp add: eval_lpSum eval_var_expr comp_def)

lemma arcs_set: "set allowed_arcs = spec_arcs"
  by (auto simp: allowed_arcs_def spec_arcs_def)

lemma bal_member:
  "j \<in> set demands \<Longrightarrow> m \<in> set months \<Longrightarrow>
   balance_c (get0 eff j) (get0 (tDhat t) (j, m)) j m \<in> set (constraints (built_problem p t eff))"
  by (auto simp: built_problem_def bal_list_def)

lemma ofe_member:
  "i \<in> set sources \<Longrightarrow> m \<in> set months \<Longrightarrow>
   oferta_c (spec_adjusted p i (get0 (tQhat t) (i, m))) i m \<in> set (constraints (built_problem p t eff))"
  by (auto simp: built_problem_def ofe_list_def)

lemma cap_member:
  "m \<in> set months \<Longrightarrow>
   cap_c (get0 (tCapSanta t) m) m \<in> set (constraints (built_problem p t eff))"
  by (auto simp: built_problem_def cap_list_def)

lemma dz_member:
  "j \<in> set priority_demands \<Longrightarrow> m \<in> set months \<Longrightarrow>
   deficit_c j m \<in> set (constraints (built_problem p t eff))"
  by (auto simp: built_problem_def dz_list_def)

lemma feasible_sat: "feasible prob val \<Longrightarrow> (n, c) \<in> set (constraints prob) \<Longrightarrow> sat c val"
  by (auto simp: feasible_def)

lemma eval_balance_lhs:
  "eval (lhs (snd (balance_c ej d j m))) val
     = (\<Sum>i \<leftarrow> arc_sources j m. val (X i j m)) * ej + val (U j m)"
  by (simp add: balance_c_def expr_eq_def eval_addInPlace eval_scale eval_lpSum_image eval_var_expr)

lemma eval_oferta_lhs:
  "eval (lhs (snd (oferta_c q i m))) val = (\<Sum>j \<leftarrow> arc_demands i m. val (X i j m))"
  by (simp add: oferta_c_def expr_le_def eval_lpSum_image)

lemma eval_cap_lhs:
  "eval (lhs (snd (cap_c c m))) val = (\<Sum>j \<leftarrow> arc_demands ''Santa'' m. val (X ''Santa'' j m))"
  by (simp add: cap_c_def expr_le_def eval_lpSum_image)

lemma santa_arcs: "m \<in> set months \<Longrightarrow> arc_demands ''Santa'' m = demands"
  by (simp add: arc_demands_def arcs_set spec_arcs_def filter_id_conv)

lemma CapSanta_entries:
  "\<exists>C. CapSanta p = Some C
       \<and> (\<forall>m \<in> set months. \<exists>s. getitem secs m = Some s
              \<and> getitem C m = Some (cap_santa_m3s p * real_of_int s / 1000000))"
  by (simp add: CapSanta_def secs_val getitem_def months_def)

lemma constraint_names:
  "map fst (constraints (built_problem p t eff))
     = [''Balance_Dem_'' @ j @ ''_'' @ m. j \<leftarrow> demands, m \<leftarrow> months]
       @ [''Oferta_'' @ i @ ''_'' @ m. i \<leftarrow> sources, m \<leftarrow> months]
       @ [''Cap_Santa_'' @ m. m \<leftarrow> months]
       @ [''DeficitCero_'' @ j @ ''_'' @ m. j \<leftarrow> priority_demands, m \<leftarrow> months]"
  by (simp add: built_problem_def bal_list_def ofe_list_def cap_list_def dz_list_def map_concat
      comp_def balance_c_def oferta_c_def cap_c_def deficit_c_def)








































section \<open>Claims\<close>

text \<open>
  Claim C9, as amended. With a scenario name other than \<open>S1\<close> and \<open>S2\<close> the run stops
  with a \<open>KeyError\<close> at the lookup of the efficiencies and returns nothing: no constraint
  and no objective has been added and the solver is not called. The problem object and
  all the decision variables have already been created at that point.
\<close>

theorem unknown_scenario_aborts:
  assumes "scenario p \<notin> {''S1'', ''S2''}"
  shows "build_and_solve env p
           = Inl (KeyError,
                  \<lparr>st_prob = Some (LpProblem ''CHAVI_Optim_Recursos_Hidricos'' LpMaximize),
                   st_x = x_vars, st_u = u_vars\<rparr>)
         \<and> constraints (LpProblem ''CHAVI_Optim_Recursos_Hidricos'' LpMaximize) = []
         \<and> objective (LpProblem ''CHAVI_Optim_Recursos_Hidricos'' LpMaximize) = None"
proof -
  obtain t where "prepare p = Some t" using prepare_ok[of p] by auto
  then show ?thesis
    by (simp add: build_and_solve_def build_model_def unknown_scenario[OF assms] LpProblem_def)
qed

theorem unknown_scenario_aborts_witness:
  "build_and_solve idle_pulp (default_params\<lparr>scenario := ''S3''\<rparr>)
           = Inl (KeyError,
                  \<lparr>st_prob = Some (LpProblem ''CHAVI_Optim_Recursos_Hidricos'' LpMaximize),
                   st_x = x_vars, st_u = u_vars\<rparr>)
         \<and> constraints (LpProblem ''CHAVI_Optim_Recursos_Hidricos'' LpMaximize) = []
         \<and> objective (LpProblem ''CHAVI_Optim_Recursos_Hidricos'' LpMaximize) = None"
  using unknown_scenario_aborts[of "default_params\<lparr>scenario := ''S3''\<rparr>" idle_pulp]
  by (simp add: default_params_def)

text \<open>
  Counterexample to C9 as stated: with scenario \<open>S3\<close> the run stops while a problem
  object and 204 + 120 decision variables exist.
\<close>

theorem unknown_scenario_counterexample:
  "build_and_solve idle_pulp (default_params\<lparr>scenario := ''S3''\<rparr>)
     = Inl (KeyError,
            \<lparr>st_prob = Some (LpProblem ''CHAVI_Optim_Recursos_Hidricos'' LpMaximize),
             st_x = x_vars, st_u = u_vars\<rparr>)
   \<and> Some (LpProblem ''CHAVI_Optim_Recursos_Hidricos'' LpMaximize) \<noteq> None
   \<and> length x_vars = 204 \<and> length u_vars = 120"
proof -
  obtain t where "prepare (default_params\<lparr>scenario := ''S3''\<rparr>) = Some t"
    using prepare_ok[of "default_params\<lparr>scenario := ''S3''\<rparr>"] by auto
  moreover have "getitem efficiencies ''S3'' = None"
    by (rule unknown_scenario) simp
  ultimately show ?thesis
    by (simp add: build_and_solve_def build_model_def default_params_def length_x_vars length_u_vars)
qed

text \<open>
  Claim C8. For any values the solver leaves in the variables (a variable without a value
  counts as 0), the three totals of the extractor are the sums over the arcs and over the
  pairs (demand, month) computed from those values, and benefit minus cost minus penalty
  equals the objective expression evaluated at the same values. When every variable has a
  value, this is also the objective value that is returned.
\<close>

theorem totals_reconcile_with_objective:
  assumes "scenario p \<in> {''S1'', ''S2''}" and "build_model p = Inr md"
    and "solve env (select_solver env p) (m_prob md) = Inr sol"
  shows "\<exists>r obj. build_and_solve env p = Inr r \<and> objective (m_prob md) = Some obj
     \<and> benefit_total r = (\<Sum>(i, j, m) \<leftarrow> allowed_arcs.
          get0 (m_eff md) j * get0 (tvalue (m_tables md)) j * or_zero (varValue sol (X i j m)))
     \<and> cost_total r = (\<Sum>(i, j, m) \<leftarrow> allowed_arcs.
          get0 (tcost (m_tables md)) i * or_zero (varValue sol (X i j m)))
     \<and> penalty_total r = (\<Sum>j \<leftarrow> demands. \<Sum>m \<leftarrow> months.
          penalty_usd_hm3 p * sector_weight p j * or_zero (varValue sol (U j m)))
     \<and> benefit_total r - cost_total r - penalty_total r
          = eval obj (\<lambda>v. or_zero (varValue sol v))
     \<and> ((\<forall>v \<in> set variables. varValue sol v \<noteq> None) \<longrightarrow>
          objective_value r = Some (benefit_total r - cost_total r - penalty_total r))"
proof -
  obtain t eff where b:
      "build_model p = Inr \<lparr>m_tables = t, m_eff = eff, m_x = x_vars, m_u = u_vars,
                             m_prob = built_problem p t eff\<rparr>"
      "map fst eff = demands" "map fst (tvalue t) = demands" "map fst (tcost t) = sources"
    using run_after_build[OF assms(1)] by blast
  from b(1) assms(2) have md: "md = \<lparr>m_tables = t, m_eff = eff, m_x = x_vars, m_u = u_vars,
                             m_prob = built_problem p t eff\<rparr>" by simp
  let ?obj = "sub (benefit_expr eff (tvalue t) (tcost t)) (penalty_expr p)"
  let ?val = "\<lambda>v. or_zero (varValue sol v)"
  let ?B = "\<Sum>(i, j, m) \<leftarrow> allowed_arcs. get0 eff j * get0 (tvalue t) j * ?val (X i j m)"
  let ?C = "\<Sum>(i, j, m) \<leftarrow> allowed_arcs. get0 (tcost t) i * ?val (X i j m)"
  let ?P = "\<Sum>j \<leftarrow> demands. \<Sum>m \<leftarrow> months. penalty_usd_hm3 p * sector_weight p j * ?val (U j m)"
  let ?r = "\<lparr>status = sol_status sol,
             objective_value = pl_value (Some ?obj) (varValue sol),
             benefit_total = ?B, cost_total = ?C, penalty_total = ?P\<rparr>"
  have pen: "(\<Sum>j \<leftarrow> demands. \<Sum>m \<leftarrow> months.
                 penalty_usd_hm3 p * get0 (weight_dem p) j * ?val (U j m)) = ?P"
    by (rule sum_list_cong) (simp add: get0_Some[OF weight_sector])
  have sol: "solve env (select_solver env p) (built_problem p t eff) = Inr sol"
    using assms(3) md by simp
  have obj: "objective (built_problem p t eff) = Some ?obj"
    by (simp add: built_problem_def)
  have run: "build_and_solve env p = Inr ?r"
    by (simp add: build_and_solve_def b(1) sol Let_def extract_totals_ok[OF b(2,3,4)] pen obj)
  have rec: "?B - ?C - ?P = eval ?obj ?val"
    by (simp add: eval_objective split_margin)
  have full: "pl_value (Some ?obj) (varValue sol) = Some (?B - ?C - ?P)"
    if "\<forall>v \<in> set variables. varValue sol v \<noteq> None"
    using pl_value_defined[OF that, of eff "tvalue t" "tcost t" p] rec by simp
  show ?thesis
    using run obj rec full by (intro exI[of _ ?r] exI[of _ ?obj]) (simp add: md)
qed

theorem totals_reconcile_with_objective_witness:
  "\<exists>md r obj. build_model default_params = Inr md
     \<and> build_and_solve idle_pulp default_params = Inr r
     \<and> objective (m_prob md) = Some obj
     \<and> benefit_total r - cost_total r - penalty_total r = eval obj (\<lambda>v. 0)"
proof -
  have s: "scenario default_params \<in> {''S1'', ''S2''}" by (simp add: default_params_def)
  obtain md where md: "build_model default_params = Inr md"
    using run_after_build[OF s] by blast
  let ?sol = "\<lparr>sol_status = Not_Solved, varValue = (\<lambda>v. None)\<rparr>"
  have sol: "solve idle_pulp (select_solver idle_pulp default_params) (m_prob md) = Inr ?sol"
    by (simp add: idle_pulp_def)
  from totals_reconcile_with_objective[OF s md sol]
  obtain r obj where "build_and_solve idle_pulp default_params = Inr r"
      "objective (m_prob md) = Some obj"
      "benefit_total r - cost_total r - penalty_total r = eval obj (\<lambda>v. or_zero (varValue ?sol v))"
    by blast
  with md show ?thesis by (auto simp: or_zero_def)
qed

text \<open>
  Claim C2. The problem is a maximisation and its objective evaluates, at every point, to
  the sum over the arcs of (efficiency times unit value minus unit cost) times x, minus
  the sum over all pairs (demand, month) of penalty rate times sector weight times u. The
  efficiency multiplies the value only. The sector weight is the three-level table, and
  unit value and unit cost are the tables per cubic metre times 10^6.
\<close>

theorem objective_is_net_benefit:
  assumes "scenario p \<in> {''S1'', ''S2''}"
  shows "\<exists>md eff V C obj. build_model p = Inr md
     \<and> getitem efficiencies (scenario p) = Some eff
     \<and> value_dem_USD_hm3 = Some V \<and> cost_offer_USD_hm3 = Some C
     \<and> psense (m_prob md) = LpMaximize \<and> objective (m_prob md) = Some obj
     \<and> (\<forall>val. eval obj val
          = (\<Sum>(i, j, m) \<leftarrow> allowed_arcs. (get0 eff j * get0 V j - get0 C i) * val (X i j m))
            - (\<Sum>j \<leftarrow> demands. \<Sum>m \<leftarrow> months.
                 penalty_usd_hm3 p * sector_weight p j * val (U j m)))
     \<and> (\<forall>j \<in> set demands. getitem eff j = Some (get0 eff j)
            \<and> getitem V j = Some (get0 value_dem_USD_m3 j * 1000000)
            \<and> getitem (weight_dem p) j = Some (sector_weight p j))
     \<and> (\<forall>i \<in> set sources. getitem C i = Some (get0 cost_offer_USD_m3 i * 1000000))"
proof -
  obtain t eff where b:
      "build_model p = Inr \<lparr>m_tables = t, m_eff = eff, m_x = x_vars, m_u = u_vars,
                             m_prob = built_problem p t eff\<rparr>"
      "map fst eff = demands"
      "getitem efficiencies (scenario p) = Some eff"
      "value_dem_USD_hm3 = Some (tvalue t)" "cost_offer_USD_hm3 = Some (tcost t)"
    using run_after_build[OF assms] by blast
  obtain V0 where V0: "value_dem_USD_hm3 = Some V0"
      "\<forall>j \<in> set demands. getitem V0 j = Some (get0 value_dem_USD_m3 j * 1000000)"
    using value_hm3_entries by blast
  have "V0 = tvalue t" using V0(1) b(4) by (metis option.inject)
  with V0(2)
  have V: "\<forall>j \<in> set demands. getitem (tvalue t) j = Some (get0 value_dem_USD_m3 j * 1000000)"
    by simp
  obtain C0 where C0: "cost_offer_USD_hm3 = Some C0"
      "\<forall>i \<in> set sources. getitem C0 i = Some (get0 cost_offer_USD_m3 i * 1000000)"
    using cost_hm3_entries by blast
  have "C0 = tcost t" using C0(1) b(5) by (metis option.inject)
  with C0(2)
  have C: "\<forall>i \<in> set sources. getitem (tcost t) i = Some (get0 cost_offer_USD_m3 i * 1000000)"
    by simp
  have E: "\<forall>j \<in> set demands. getitem eff j = Some (get0 eff j)"
    using getitem_get0[OF b(2)] by blast
  let ?md = "\<lparr>m_tables = t, m_eff = eff, m_x = x_vars, m_u = u_vars,
              m_prob = built_problem p t eff\<rparr>"
  let ?obj = "sub (benefit_expr eff (tvalue t) (tcost t)) (penalty_expr p)"
  show ?thesis
    using b V C E
    by (intro exI[of _ ?md] exI[of _ eff] exI[of _ "tvalue t"] exI[of _ "tcost t"] exI[of _ ?obj])
      (simp add: built_problem_def eval_objective weight_sector)
qed

theorem objective_is_net_benefit_witness:
  "\<exists>md obj. build_model default_params = Inr md \<and> psense (m_prob md) = LpMaximize
     \<and> objective (m_prob md) = Some obj \<and> eval obj (\<lambda>v. 0) = 0"
proof -
  have s: "scenario default_params \<in> {''S1'', ''S2''}" by (simp add: default_params_def)
  from objective_is_net_benefit[OF s] obtain md eff V C obj where
      "build_model default_params = Inr md" "psense (m_prob md) = LpMaximize"
      "objective (m_prob md) = Some obj"
      "\<forall>val. eval obj val
          = (\<Sum>(i, j, m) \<leftarrow> allowed_arcs. (get0 eff j * get0 V j - get0 C i) * val (X i j m))
            - (\<Sum>j \<leftarrow> demands. \<Sum>m \<leftarrow> months.
                 penalty_usd_hm3 default_params * sector_weight default_params j * val (U j m))"
    by blast
  then show ?thesis by (intro exI[of _ md] exI[of _ obj]) (simp add: sum_zero_triples)
qed

text \<open>
  Claim C1. For every demand j and month m the built problem has the constraint named
  \<open>Balance_Dem_j_m\<close>; it is an equality, its left-hand side is the sum of x(i,j,m) over the
  sources i with an arc (i,j,m), times the efficiency of j in the scenario, plus u(j,m),
  and its right-hand side is the converted demand Dhat(j,m). So at every feasible point
  u(j,m) is exactly the converted demand minus what is delivered.
\<close>

theorem demand_balance_is_equality:
  assumes "scenario p \<in> {''S1'', ''S2''}" and "j \<in> set demands" and "m \<in> set months"
  shows "\<exists>md eff ej D d c. build_model p = Inr md
     \<and> getitem efficiencies (scenario p) = Some eff \<and> getitem eff j = Some ej
     \<and> Dhat = Some D \<and> getitem D (j, m) = Some d
     \<and> (''Balance_Dem_'' @ j @ ''_'' @ m, c) \<in> set (constraints (m_prob md))
     \<and> csense c = LpConstraintEQ \<and> rhs c = d
     \<and> (\<forall>val. eval (lhs c) val
           = (\<Sum>i \<leftarrow> [i \<leftarrow> sources. (i, j, m) \<in> set allowed_arcs]. val (X i j m)) * ej
             + val (U j m))
     \<and> (\<forall>val. feasible (m_prob md) val \<longrightarrow>
           val (U j m)
             = d - (\<Sum>i \<leftarrow> [i \<leftarrow> sources. (i, j, m) \<in> set allowed_arcs]. val (X i j m)) * ej)"
proof -
  obtain t eff where b:
      "build_model p = Inr \<lparr>m_tables = t, m_eff = eff, m_x = x_vars, m_u = u_vars,
                             m_prob = built_problem p t eff\<rparr>"
      "map fst eff = demands" "getitem efficiencies (scenario p) = Some eff"
      "Dhat = Some (tDhat t)" "map fst (tDhat t) = List.product demands months"
    using run_after_build[OF assms(1)] by blast
  let ?md = "\<lparr>m_tables = t, m_eff = eff, m_x = x_vars, m_u = u_vars,
              m_prob = built_problem p t eff\<rparr>"
  let ?ej = "get0 eff j" and ?d = "get0 (tDhat t) (j, m)"
  let ?c = "snd (balance_c ?ej ?d j m)"
  let ?S = "\<lambda>val. \<Sum>i \<leftarrow> [i \<leftarrow> sources. (i, j, m) \<in> set allowed_arcs]. val (X i j m)"
  have e: "getitem eff j = Some ?ej" by (rule getitem_get0[OF b(2) assms(2)])
  have "(j, m) \<in> set (List.product demands months)" using assms(2,3) by simp
  then have d: "getitem (tDhat t) (j, m) = Some ?d" by (rule getitem_get0[OF b(5)])
  have mem: "(''Balance_Dem_'' @ j @ ''_'' @ m, ?c) \<in> set (constraints (built_problem p t eff))"
    using bal_member[OF assms(2,3), of eff t p] by (simp add: balance_c_def)
  have shape: "csense ?c = LpConstraintEQ" "rhs ?c = ?d"
    by (simp_all add: balance_c_def expr_eq_def)
  have ev: "eval (lhs ?c) val = ?S val * ?ej + val (U j m)" for val
    by (simp add: eval_balance_lhs arc_sources_def)
  have fe: "val (U j m) = ?d - ?S val * ?ej" if "feasible (built_problem p t eff) val" for val
  proof -
    from feasible_sat[OF that mem] have "eval (lhs ?c) val = ?d"
      by (simp add: sat_def shape)
    with ev[of val] show ?thesis by simp
  qed
  show ?thesis
    using b(1,3,4) e d mem shape ev fe
    by (intro exI[of _ ?md] exI[of _ eff] exI[of _ ?ej] exI[of _ "tDhat t"] exI[of _ ?d]
        exI[of _ ?c]) simp
qed

theorem demand_balance_is_equality_witness:
  "\<exists>md eff ej D d c. build_model default_params = Inr md
     \<and> getitem efficiencies ''S1'' = Some eff \<and> getitem eff ''Chao'' = Some ej
     \<and> Dhat = Some D \<and> getitem D (''Chao'', ''Ene'') = Some d
     \<and> (''Balance_Dem_Chao_Ene'', c) \<in> set (constraints (m_prob md))
     \<and> csense c = LpConstraintEQ \<and> rhs c = d"
proof -
  have h: "scenario default_params \<in> {''S1'', ''S2''}" "''Chao'' \<in> set demands"
      "''Ene'' \<in> set months"
    by (simp_all add: default_params_def demands_def months_def)
  have s: "scenario default_params = ''S1''" by (simp add: default_params_def)
  from demand_balance_is_equality[OF h] show ?thesis
    unfolding s by (elim exE conjE, intro exI conjI) (assumption | simp)+
qed

text \<open>
  Claim C3. For each of PTAP_Trujillo, PTAP_Chao, Industria and Pecuario and every month the
  built problem has the constraint \<open>DeficitCero_j_m\<close>, the equality u(j,m) = 0, whatever the
  penalty rate and the weights are; at every feasible point that deficit is 0.
\<close>

theorem priority_deficit_is_zero:
  assumes "scenario p \<in> {''S1'', ''S2''}"
    and "j \<in> {''PTAP_Trujillo'', ''PTAP_Chao'', ''Industria'', ''Pecuario''}"
    and "m \<in> set months"
  shows "\<exists>md c. build_model p = Inr md
     \<and> (''DeficitCero_'' @ j @ ''_'' @ m, c) \<in> set (constraints (m_prob md))
     \<and> csense c = LpConstraintEQ \<and> rhs c = 0
     \<and> (\<forall>val. eval (lhs c) val = val (U j m))
     \<and> (\<forall>val. feasible (m_prob md) val \<longrightarrow> val (U j m) = 0)"
proof -
  obtain t eff where b:
      "build_model p = Inr \<lparr>m_tables = t, m_eff = eff, m_x = x_vars, m_u = u_vars,
                             m_prob = built_problem p t eff\<rparr>"
    using run_after_build[OF assms(1)] by blast
  let ?md = "\<lparr>m_tables = t, m_eff = eff, m_x = x_vars, m_u = u_vars,
              m_prob = built_problem p t eff\<rparr>"
  let ?c = "snd (deficit_c j m)"
  have j: "j \<in> set priority_demands" using assms(2) by (simp add: priority_demands_def)
  have mem: "(''DeficitCero_'' @ j @ ''_'' @ m, ?c) \<in> set (constraints (built_problem p t eff))"
    using dz_member[OF j assms(3), of p t eff] by (simp add: deficit_c_def)
  have shape: "csense ?c = LpConstraintEQ" "rhs ?c = 0" "\<And>val. eval (lhs ?c) val = val (U j m)"
    by (simp_all add: deficit_c_def expr_eq_def eval_var_expr)
  have fe: "val (U j m) = 0" if "feasible (built_problem p t eff) val" for val
    using feasible_sat[OF that mem] by (simp add: sat_def shape)
  show ?thesis
    using b mem shape fe by (intro exI[of _ ?md] exI[of _ ?c]) simp
qed

theorem priority_deficit_is_zero_witness:
  "\<exists>md c. build_model (default_params\<lparr>penalty_usd_hm3 := 0\<rparr>) = Inr md
     \<and> (''DeficitCero_Industria_Dic'', c) \<in> set (constraints (m_prob md))
     \<and> csense c = LpConstraintEQ \<and> rhs c = 0"
proof -
  have h: "scenario (default_params\<lparr>penalty_usd_hm3 := 0\<rparr>) \<in> {''S1'', ''S2''}"
      "''Industria'' \<in> {''PTAP_Trujillo'', ''PTAP_Chao'', ''Industria'', ''Pecuario''}"
      "''Dic'' \<in> set months"
    by (simp_all add: default_params_def months_def)
  from priority_deficit_is_zero[OF h] show ?thesis
    by (elim exE conjE, intro exI conjI) (assumption | simp)+
qed

text \<open>
  Claim C4. For every source i and month m the built problem has the constraint
  \<open>Oferta_i_m\<close>: the sum of x(i,j,m) over the demands j with an arc (i,j,m) is at most the
  adjusted supply, which is the converted volume Qhat(i,m) times \<open>mult_pozos_chao\<close> for
  Pozos_Chao, times \<open>mult_pozos_viru\<close> for Pozos_Viru, and Qhat(i,m) itself for every other
  source.
\<close>

theorem supply_limit_with_multipliers:
  assumes "scenario p \<in> {''S1'', ''S2''}" and "i \<in> set sources" and "m \<in> set months"
  shows "\<exists>md Q base c. build_model p = Inr md
     \<and> Qhat = Some Q \<and> getitem Q (i, m) = Some base
     \<and> (''Oferta_'' @ i @ ''_'' @ m, c) \<in> set (constraints (m_prob md))
     \<and> csense c = LpConstraintLE
     \<and> rhs c = (if i = ''Pozos_Chao'' then base * mult_pozos_chao p
                 else if i = ''Pozos_Viru'' then base * mult_pozos_viru p
                 else base)
     \<and> (\<forall>val. eval (lhs c) val
           = (\<Sum>j \<leftarrow> [j \<leftarrow> demands. (i, j, m) \<in> set allowed_arcs]. val (X i j m)))
     \<and> (\<forall>val. feasible (m_prob md) val \<longrightarrow>
           (\<Sum>j \<leftarrow> [j \<leftarrow> demands. (i, j, m) \<in> set allowed_arcs]. val (X i j m)) \<le> rhs c)"
proof -
  obtain t eff where b:
      "build_model p = Inr \<lparr>m_tables = t, m_eff = eff, m_x = x_vars, m_u = u_vars,
                             m_prob = built_problem p t eff\<rparr>"
      "Qhat = Some (tQhat t)" "map fst (tQhat t) = List.product sources months"
    using run_after_build[OF assms(1)] by blast
  let ?md = "\<lparr>m_tables = t, m_eff = eff, m_x = x_vars, m_u = u_vars,
              m_prob = built_problem p t eff\<rparr>"
  let ?base = "get0 (tQhat t) (i, m)"
  let ?c = "snd (oferta_c (spec_adjusted p i ?base) i m)"
  let ?S = "\<lambda>val. \<Sum>j \<leftarrow> [j \<leftarrow> demands. (i, j, m) \<in> set allowed_arcs]. val (X i j m)"
  have "(i, m) \<in> set (List.product sources months)" using assms(2,3) by simp
  then have q: "getitem (tQhat t) (i, m) = Some ?base" by (rule getitem_get0[OF b(3)])
  have mem: "(''Oferta_'' @ i @ ''_'' @ m, ?c) \<in> set (constraints (built_problem p t eff))"
    using ofe_member[OF assms(2,3), of p t eff] by (simp add: oferta_c_def)
  have shape: "csense ?c = LpConstraintLE"
      "rhs ?c = (if i = ''Pozos_Chao'' then ?base * mult_pozos_chao p
                 else if i = ''Pozos_Viru'' then ?base * mult_pozos_viru p
                 else ?base)"
    by (simp_all add: oferta_c_def expr_le_def spec_adjusted_def)
  have ev: "eval (lhs ?c) val = ?S val" for val
    by (simp add: eval_oferta_lhs arc_demands_def)
  have fe: "?S val \<le> rhs ?c" if "feasible (built_problem p t eff) val" for val
    using feasible_sat[OF that mem] ev[of val] by (simp add: sat_def shape(1))
  show ?thesis
    using b(1,2) q mem shape ev fe
    by (intro exI[of _ ?md] exI[of _ "tQhat t"] exI[of _ ?base] exI[of _ ?c]) simp
qed

theorem supply_limit_with_multipliers_witness:
  "\<exists>md Q base c. build_model (default_params\<lparr>mult_pozos_chao := 2\<rparr>) = Inr md
     \<and> Qhat = Some Q \<and> getitem Q (''Pozos_Chao'', ''Jul'') = Some base
     \<and> (''Oferta_Pozos_Chao_Jul'', c) \<in> set (constraints (m_prob md))
     \<and> csense c = LpConstraintLE \<and> rhs c = base * 2"
proof -
  have h: "scenario (default_params\<lparr>mult_pozos_chao := 2\<rparr>) \<in> {''S1'', ''S2''}"
      "''Pozos_Chao'' \<in> set sources" "''Jul'' \<in> set months"
    by (simp_all add: default_params_def sources_def months_def)
  from supply_limit_with_multipliers[OF h] show ?thesis
    by (elim exE conjE, intro exI conjI) (assumption | simp)+
qed

text \<open>
  Claim C5. For every month m the built problem has the constraint \<open>Cap_Santa_m\<close>: the sum
  of x(Santa,j,m) over all demands j is at most \<open>cap_santa_m3s\<close> times the seconds of the
  month over 10^6. The capacity constraints are these twelve only, all on Santa, and
  \<open>Oferta_Santa_m\<close> is in the problem as well, so both bounds hold at every feasible point.
\<close>

theorem canal_capacity_stacks_on_supply:
  assumes "scenario p \<in> {''S1'', ''S2''}" and "m \<in> set months"
  shows "\<exists>md s Q base c c'. build_model p = Inr md
     \<and> getitem secs m = Some s \<and> Qhat = Some Q \<and> getitem Q (''Santa'', m) = Some base
     \<and> (''Cap_Santa_'' @ m, c) \<in> set (constraints (m_prob md))
     \<and> csense c = LpConstraintLE \<and> rhs c = cap_santa_m3s p * real_of_int s / 1000000
     \<and> (\<forall>val. eval (lhs c) val = (\<Sum>j \<leftarrow> demands. val (X ''Santa'' j m)))
     \<and> (''Oferta_Santa_'' @ m, c') \<in> set (constraints (m_prob md))
     \<and> csense c' = LpConstraintLE \<and> rhs c' = base
     \<and> (\<forall>val. eval (lhs c') val = (\<Sum>j \<leftarrow> demands. val (X ''Santa'' j m)))
     \<and> (\<forall>val. feasible (m_prob md) val \<longrightarrow>
           (\<Sum>j \<leftarrow> demands. val (X ''Santa'' j m)) \<le> cap_santa_m3s p * real_of_int s / 1000000
           \<and> (\<Sum>j \<leftarrow> demands. val (X ''Santa'' j m)) \<le> base)
     \<and> map fst (constraints (m_prob md))
         = [''Balance_Dem_'' @ j @ ''_'' @ m. j \<leftarrow> demands, m \<leftarrow> months]
           @ [''Oferta_'' @ i @ ''_'' @ m. i \<leftarrow> sources, m \<leftarrow> months]
           @ [''Cap_Santa_'' @ m. m \<leftarrow> months]
           @ [''DeficitCero_'' @ j @ ''_'' @ m. j \<leftarrow> priority_demands, m \<leftarrow> months]"
proof -
  obtain t eff where b:
      "build_model p = Inr \<lparr>m_tables = t, m_eff = eff, m_x = x_vars, m_u = u_vars,
                             m_prob = built_problem p t eff\<rparr>"
      "Qhat = Some (tQhat t)" "map fst (tQhat t) = List.product sources months"
      "CapSanta p = Some (tCapSanta t)"
    using run_after_build[OF assms(1)] by blast
  let ?md = "\<lparr>m_tables = t, m_eff = eff, m_x = x_vars, m_u = u_vars,
              m_prob = built_problem p t eff\<rparr>"
  let ?S = "\<lambda>val. \<Sum>j \<leftarrow> demands. val (X ''Santa'' j m)"
  obtain C0 where C0: "CapSanta p = Some C0"
      "\<forall>m \<in> set months. \<exists>s. getitem secs m = Some s
              \<and> getitem C0 m = Some (cap_santa_m3s p * real_of_int s / 1000000)"
    using CapSanta_entries by blast
  have "C0 = tCapSanta t" using C0(1) b(4) by (metis option.inject)
  with C0(2) assms(2) obtain s where s: "getitem secs m = Some s"
      "getitem (tCapSanta t) m = Some (cap_santa_m3s p * real_of_int s / 1000000)"
    by blast
  let ?cap = "cap_santa_m3s p * real_of_int s / 1000000"
  let ?base = "get0 (tQhat t) (''Santa'', m)"
  let ?c = "snd (cap_c ?cap m)"
  let ?c' = "snd (oferta_c ?base ''Santa'' m)"
  have santa: "''Santa'' \<in> set sources" by (simp add: sources_def)
  then have "(''Santa'', m) \<in> set (List.product sources months)" using assms(2) by simp
  then have q: "getitem (tQhat t) (''Santa'', m) = Some ?base" by (rule getitem_get0[OF b(3)])
  have mem: "(''Cap_Santa_'' @ m, ?c) \<in> set (constraints (built_problem p t eff))"
    using cap_member[OF assms(2), of t p eff] by (simp add: cap_c_def get0_Some[OF s(2)])
  have mem': "(''Oferta_Santa_'' @ m, ?c') \<in> set (constraints (built_problem p t eff))"
    using ofe_member[OF santa assms(2), of p t eff] by (simp add: oferta_c_def spec_adjusted_def)
  have shape: "csense ?c = LpConstraintLE" "rhs ?c = ?cap" "csense ?c' = LpConstraintLE"
      "rhs ?c' = ?base"
    by (simp_all add: cap_c_def oferta_c_def expr_le_def)
  have ev: "eval (lhs ?c) val = ?S val" "eval (lhs ?c') val = ?S val" for val
    by (simp_all add: eval_cap_lhs eval_oferta_lhs santa_arcs[OF assms(2)])
  have fe: "?S val \<le> ?cap \<and> ?S val \<le> ?base" if "feasible (built_problem p t eff) val" for val
    using feasible_sat[OF that mem] feasible_sat[OF that mem'] ev[of val]
    by (simp add: sat_def shape)
  show ?thesis
    using b(1,2) s(1) q mem mem' shape ev fe constraint_names[of p t eff]
    by (intro exI[of _ ?md] exI[of _ s] exI[of _ "tQhat t"] exI[of _ ?base] exI[of _ ?c]
        exI[of _ ?c']) simp
qed

theorem canal_capacity_stacks_on_supply_witness:
  "\<exists>md c c'. build_model default_params = Inr md
     \<and> (''Cap_Santa_Feb'', c) \<in> set (constraints (m_prob md))
     \<and> csense c = LpConstraintLE \<and> rhs c = 88 * 2419200 / 1000000
     \<and> (''Oferta_Santa_Feb'', c') \<in> set (constraints (m_prob md))
     \<and> csense c' = LpConstraintLE"
proof -
  have h: "scenario default_params \<in> {''S1'', ''S2''}" "''Feb'' \<in> set months"
    by (simp_all add: default_params_def months_def)
  have s: "getitem secs ''Feb'' = Some 2419200" by (simp add: secs_val getitem_def)
  have c: "cap_santa_m3s default_params = 88" by (simp add: default_params_def)
  from canal_capacity_stacks_on_supply[OF h] show ?thesis
    unfolding s c by (elim exE conjE, intro exI conjI) (assumption | simp)+
qed






end
